theory Spec2Isabelle
  imports Main "HOL-Library.Word"
begin

section \<open>Python values, dictionaries and exceptions\<close>

text \<open>
  Both programs read a YAML document into a dictionary and index it with string keys.
  The scalars they compute with are integers and strings; \<open>+\<close> and \<open>*\<close> are
  Python's, so an integer plus a string raises \<open>TypeError\<close> and an integer times a
  string repeats the string.  A missing key raises \<open>KeyError\<close>.  The bare
  \<open>Exception\<close> raised for an oversized bootloader or image is \<open>SizeExceeded\<close>;
  a failing \<open>open\<close>, \<open>seek\<close> or \<open>getsize\<close> is \<open>FileAccessError\<close>.
\<close>

datatype pyval = PInt int | PStr string

datatype cfgval = Scalar pyval | Seq "pyval list"

datatype error =
    KeyError | TypeError | IndexError | OverflowError | ValueError
  | FileAccessError | SizeExceeded

type_synonym platform = "string \<rightharpoonup> pyval"
type_synonym config = "string \<rightharpoonup> cfgval"
type_synonym sizes = "(string \<times> pyval) list"

fun and_then :: "error + 'a \<Rightarrow> ('a \<Rightarrow> error + 'b) \<Rightarrow> error + 'b" where
  "and_then (Inl e) f = Inl e"
| "and_then (Inr x) f = f x"

definition lookup :: "(string \<rightharpoonup> 'v) \<Rightarrow> string \<Rightarrow> error + 'v" where
  "lookup d k = (case d k of None \<Rightarrow> Inl KeyError | Some v \<Rightarrow> Inr v)"

fun py_add :: "pyval \<Rightarrow> pyval \<Rightarrow> error + pyval" where
  "py_add (PInt a) (PInt b) = Inr (PInt (a + b))"
| "py_add (PStr a) (PStr b) = Inr (PStr (a @ b))"
| "py_add (PInt a) (PStr b) = Inl TypeError"
| "py_add (PStr a) (PInt b) = Inl TypeError"

fun py_mul :: "pyval \<Rightarrow> pyval \<Rightarrow> error + pyval" where
  "py_mul (PInt a) (PInt b) = Inr (PInt (a * b))"
| "py_mul (PInt a) (PStr s) = Inr (PStr (concat (replicate (nat a) s)))"
| "py_mul (PStr s) (PInt a) = Inr (PStr (concat (replicate (nat a) s)))"
| "py_mul (PStr s) (PStr t) = Inl TypeError"

text \<open>\<open>range(0, n)\<close>: empty for \<open>n \<le> 0\<close>, \<open>TypeError\<close> for a string.\<close>

fun py_range :: "pyval \<Rightarrow> error + int list" where
  "py_range (PInt n) = Inr (map int [0..<nat n])"
| "py_range (PStr s) = Inl TypeError"

text \<open>
  A dictionary that is iterated (\<open>.items()\<close>, \<open>.values()\<close>) keeps insertion order:
  an association list, with \<open>d[k] = v\<close> replacing in place or appending.
\<close>

fun dict_set :: "(string \<times> 'v) list \<Rightarrow> string \<Rightarrow> 'v \<Rightarrow> (string \<times> 'v) list" where
  "dict_set [] k v = [(k, v)]"
| "dict_set ((k', v') # d) k v =
     (if k' = k then (k', v) # d else (k', v') # dict_set d k v)"

section \<open>generate\_platform\_config.py\<close>

definition IMAGE_METADATA_SIZES_TEMPLATE :: sizes where
  "IMAGE_METADATA_SIZES_TEMPLATE =
     [(''version'', PInt 4),
      (''crc'', PInt 4),
      (''bootcounter'', PInt 4),
      (''lastSuccessStatus'', PInt 4),
      (''imageBegin'', PStr ''pointer_size''),
      (''length'', PInt 4),
      (''completionStatus'', PInt 2),
      (''protectionStatus'', PInt 2),
      (''hmacSignature'', PStr ''hmac_signature_size'')]"

definition GLOBAL_METADATA_SIZE_TEMPLATE :: sizes where
  "GLOBAL_METADATA_SIZE_TEMPLATE =
     [(''globalBootCounter'', PInt 4),
      (''prefferedImage'', PStr ''size_t_size''),
      (''currentImage'', PStr ''size_t_size''),
      (''hmacKey1'', PStr ''hmac_key_size''),
      (''hmacKey2'', PStr ''hmac_key_size''),
      (''hmacKey3'', PStr ''hmac_key_size''),
      (''imageMetadata'', PInt 0)]"

text \<open>
  The loop of \<open>generate_image_begin_addresses\<close>: for each \<open>i\<close> it appends
  \<open>platform["bootloader_size"] + i * platform["max_image_size"]\<close>, the left operand
  looked up first.
\<close>

fun begin_addresses_loop :: "platform \<Rightarrow> int list \<Rightarrow> pyval list \<Rightarrow> error + pyval list" where
  "begin_addresses_loop platform [] acc = Inr acc"
| "begin_addresses_loop platform (i # rest) acc =
     and_then (lookup platform ''bootloader_size'') (\<lambda>b.
     and_then (lookup platform ''max_image_size'') (\<lambda>m.
     and_then (py_mul (PInt i) m) (\<lambda>p.
     and_then (py_add b p) (\<lambda>a.
       begin_addresses_loop platform rest (acc @ [a])))))"

definition generate_image_begin_addresses :: "platform \<Rightarrow> config \<Rightarrow> error + config" where
  "generate_image_begin_addresses platform config =
     and_then (lookup platform ''number_of_images'') (\<lambda>n.
     and_then (py_range n) (\<lambda>r.
     and_then (begin_addresses_loop platform r []) (\<lambda>addrs.
       Inr (config(''image_begin_addresses'' \<mapsto> Seq addrs)))))"

text \<open>
  The template loop shared by \<open>generate_size_of_metadata\<close> and
  \<open>generate_global_metadata_sizes\<close>: an integer entry is copied, any other entry
  names the platform field that holds the width.
\<close>

fun fill_sizes :: "platform \<Rightarrow> sizes \<Rightarrow> sizes \<Rightarrow> error + sizes" where
  "fill_sizes platform [] acc = Inr acc"
| "fill_sizes platform ((key, PInt n) # items) acc =
     fill_sizes platform items (dict_set acc key (PInt n))"
| "fill_sizes platform ((key, PStr f) # items) acc =
     and_then (lookup platform f) (\<lambda>v.
       fill_sizes platform items (dict_set acc key v))"

fun sum_sizes :: "pyval \<Rightarrow> pyval list \<Rightarrow> error + pyval" where
  "sum_sizes size' [] = Inr size'"
| "sum_sizes size' (v # vs) = and_then (py_add size' v) (\<lambda>s. sum_sizes s vs)"

definition generate_size_of_metadata :: "platform \<Rightarrow> config \<Rightarrow> error + (config \<times> sizes)" where
  "generate_size_of_metadata platform config =
     and_then (fill_sizes platform IMAGE_METADATA_SIZES_TEMPLATE []) (\<lambda>metadata_sizes.
     and_then (sum_sizes (PInt 0) (map snd metadata_sizes)) (\<lambda>size'.
       Inr (config(''size_of_metadata'' \<mapsto> Scalar size'), metadata_sizes)))"

definition generate_global_metadata_sizes :: "platform \<Rightarrow> error + sizes" where
  "generate_global_metadata_sizes platform =
     fill_sizes platform GLOBAL_METADATA_SIZE_TEMPLATE []"

text \<open>
  One of the two loops of \<open>get_offset_of\<close>: \<open>Found\<close> is the early \<open>return offset\<close>,
  \<open>Passed\<close> the offset accumulated when the loop ends.
\<close>

datatype walk = Found pyval | Passed pyval

fun walk_sizes :: "string \<Rightarrow> pyval \<Rightarrow> sizes \<Rightarrow> error + walk" where
  "walk_sizes prop offset [] = Inr (Passed offset)"
| "walk_sizes prop offset ((key, v) # items) =
     (if key = prop then Inr (Found offset)
      else and_then (py_add offset v) (\<lambda>offset'. walk_sizes prop offset' items))"

definition get_offset_of :: "string \<Rightarrow> platform \<Rightarrow> sizes \<Rightarrow> sizes \<Rightarrow> error + pyval" where
  "get_offset_of prop platform metadata_sizes global_metadata_sizes =
     and_then (lookup platform ''metadata_label_address'') (\<lambda>offset.
     and_then (walk_sizes prop offset global_metadata_sizes) (\<lambda>w.
       case w of
         Found off \<Rightarrow> Inr off
       | Passed offset' \<Rightarrow>
           and_then (walk_sizes prop offset' metadata_sizes) (\<lambda>w'.
             case w' of Found off \<Rightarrow> Inr off | Passed _ \<Rightarrow> Inr (PInt 0))))"

definition generate_offsets :: "platform \<Rightarrow> config \<Rightarrow> sizes \<Rightarrow> sizes \<Rightarrow> error + config" where
  "generate_offsets platform config metadata_sizes global_metadata_sizes =
     and_then (get_offset_of ''hmacKey1'' platform metadata_sizes global_metadata_sizes) (\<lambda>o1.
     and_then (get_offset_of ''imageMetadata'' platform metadata_sizes global_metadata_sizes) (\<lambda>o2.
     and_then (get_offset_of ''crc'' platform metadata_sizes global_metadata_sizes) (\<lambda>o3.
     and_then (get_offset_of ''length'' platform metadata_sizes global_metadata_sizes) (\<lambda>o4.
     and_then (get_offset_of ''completionStatus'' platform metadata_sizes global_metadata_sizes) (\<lambda>o5.
     and_then (get_offset_of ''hmacSignature'' platform metadata_sizes global_metadata_sizes) (\<lambda>o6.
       Inr (config(''hmac_key_offset'' \<mapsto> Scalar o1,
                   ''first_image_metadata_offset'' \<mapsto> Scalar o2,
                   ''first_crc_offset'' \<mapsto> Scalar o3,
                   ''first_length_offset'' \<mapsto> Scalar o4,
                   ''first_completion_status_offset'' \<mapsto> Scalar o5,
                   ''first_hmac_offset'' \<mapsto> Scalar o6))))))))"

text \<open>
  The body of \<open>generate_config\<close> between \<open>yaml.load\<close> and \<open>save_config\<close>: the
  dictionary it builds from the loaded platform description.
\<close>

definition build_config :: "platform \<Rightarrow> error + config" where
  "build_config platform =
     and_then (lookup platform ''name'') (\<lambda>name.
     and_then (generate_image_begin_addresses platform (Map.empty(''name'' \<mapsto> Scalar name))) (\<lambda>c1.
     and_then (generate_size_of_metadata platform c1) (\<lambda>(c2, metadata_sizes).
     and_then (generate_global_metadata_sizes platform) (\<lambda>global_metadata_sizes.
     and_then (generate_offsets platform c2 metadata_sizes global_metadata_sizes) (\<lambda>c3.
     and_then (lookup platform ''bootloader_size'') (\<lambda>b.
     and_then (lookup platform ''byteorder'') (\<lambda>bo.
     and_then (lookup platform ''max_image_size'') (\<lambda>m.
       Inr (c3(''bootloader_size'' \<mapsto> Scalar b,
               ''byteorder'' \<mapsto> Scalar bo,
               ''max_image_size'' \<mapsto> Scalar m))))))))))"

text \<open>
  \<open>save_config\<close> opens \<open>config/<name>.yml\<close> for writing, which empties the
  file, writes the warning line and then the YAML dump of the dictionary.  The generated
  files are a store from path to text.  Python's formatting of the name inside the f-string
  and the YAML library's \<open>dump\<close> are parameters.
\<close>

type_synonym text_files = "string \<rightharpoonup> string"

definition GENERRATED_CONFIG_PATH :: string where
  "GENERRATED_CONFIG_PATH = ''config''"

definition add_warning_to_file :: "string \<Rightarrow> string" where
  "add_warning_to_file file =
     file @ ''# Automatically generated. Don'' @ [CHR 0x27] @ ''t edit manually'' @ [CHR 0x0A]"

definition save_config ::
  "(cfgval \<Rightarrow> string) \<Rightarrow> (config \<Rightarrow> string) \<Rightarrow> config \<Rightarrow> text_files \<Rightarrow> error + text_files" where
  "save_config format yaml_dump config fs =
     and_then (lookup config ''name'') (\<lambda>name.
       Inr (fs(GENERRATED_CONFIG_PATH @ ''/'' @ format name @ ''.yml''
                 \<mapsto> add_warning_to_file [] @ yaml_dump config)))"

text \<open>\<open>generate_config\<close>, from the loaded platform description on.\<close>

definition generate_config ::
  "(cfgval \<Rightarrow> string) \<Rightarrow> (config \<Rightarrow> string) \<Rightarrow> platform \<Rightarrow> text_files \<Rightarrow> error + text_files" where
  "generate_config format yaml_dump platform fs =
     and_then (build_config platform) (\<lambda>config. save_config format yaml_dump config fs)"

section \<open>initial\_metadata.py\<close>

text \<open>
  Files are a store from path to content.  \<open>open\<close> of a missing path, like
  \<open>os.path.getsize\<close> of one, raises.  The CRC-32C and HMAC-SHA-256 library functions
  and the external \<open>dd\<close> tool are parameters of the functions that call them; the exit
  status of \<open>dd\<close> is never looked at, so \<open>dd\<close> is a function on the store.
  The largest file offset the file system of the output file supports, \<open>max_offset\<close>,
  is a parameter of the functions that seek and write.
\<close>

type_synonym byte = "8 word"
type_synonym files = "string \<rightharpoonup> byte list"

record ImageMetadata =
  crc :: int
  completion_status :: int
  hmac_signature :: "byte list option"
  length' :: int
  file_name :: string

definition ImageMetadata_init :: ImageMetadata where
  "ImageMetadata_init =
     \<lparr>crc = 0, completion_status = 1, hmac_signature = None, length' = 0, file_name = []\<rparr>"

record GlobalImageMetadata =
  hmac_key_file :: "string option"
  images :: "ImageMetadata list"

definition GlobalImageMetadata_init :: GlobalImageMetadata where
  "GlobalImageMetadata_init = \<lparr>hmac_key_file = None, images = []\<rparr>"

definition read_file :: "files \<Rightarrow> string \<Rightarrow> error + byte list" where
  "read_file fs path = (case fs path of None \<Rightarrow> Inl FileAccessError | Some data \<Rightarrow> Inr data)"

definition calculate_crc32c :: "(byte list \<Rightarrow> 32 word) \<Rightarrow> files \<Rightarrow> string \<Rightarrow> error + int" where
  "calculate_crc32c crc32c fs image_file =
     and_then (read_file fs image_file) (\<lambda>data. Inr (uint (crc32c data)))"

definition get_length :: "files \<Rightarrow> string \<Rightarrow> error + int" where
  "get_length fs path =
     (case fs path of None \<Rightarrow> Inl FileAccessError | Some data \<Rightarrow> Inr (int (length data)))"

definition calculate_hmac_signature ::
  "(byte list \<Rightarrow> byte list \<Rightarrow> byte list) \<Rightarrow> files \<Rightarrow> string \<Rightarrow> string \<Rightarrow> error + byte list" where
  "calculate_hmac_signature hmac_sha256 fs image_file key_file =
     and_then (read_file fs key_file) (\<lambda>key.
     and_then (read_file fs image_file) (\<lambda>image_data.
       Inr (hmac_sha256 key image_data)))"

definition extract_image_metadata ::
  "(byte list \<Rightarrow> 32 word) \<Rightarrow> (byte list \<Rightarrow> byte list \<Rightarrow> byte list) \<Rightarrow> files
     \<Rightarrow> GlobalImageMetadata \<Rightarrow> string \<Rightarrow> string \<Rightarrow> error + GlobalImageMetadata" where
  "extract_image_metadata crc32c hmac_sha256 fs global_metadata image_file key_file =
     (let gm = global_metadata\<lparr>hmac_key_file := Some key_file\<rparr>;
          image_meta = ImageMetadata_init
      in and_then (calculate_crc32c crc32c fs image_file) (\<lambda>c.
         and_then (get_length fs image_file) (\<lambda>l.
         and_then (calculate_hmac_signature hmac_sha256 fs image_file key_file) (\<lambda>s.
           Inr (gm\<lparr>images := images gm @
                  [image_meta\<lparr>crc := c, length' := l, hmac_signature := Some s,
                     file_name := image_file\<rparr>]\<rparr>)))))"

text \<open>
  The functions that write: \<open>Done\<close> with the new store, or \<open>Failed\<close> with the exception
  and the store as the exception leaves it.
\<close>

datatype outcome = Done files | Failed error files

fun then_do :: "outcome \<Rightarrow> (files \<Rightarrow> outcome) \<Rightarrow> outcome" where
  "then_do (Done fs) f = f fs"
| "then_do (Failed e fs) f = Failed e fs"

text \<open>\<open>length > config[...]\<close> with an integer on the left.\<close>

fun int_gt :: "int \<Rightarrow> cfgval \<Rightarrow> error + bool" where
  "int_gt n (Scalar (PInt b)) = Inr (b < n)"
| "int_gt n (Scalar (PStr s)) = Inl TypeError"
| "int_gt n (Seq xs) = Inl TypeError"

text \<open>\<open>config["image_begin_addresses"][index]\<close>; a string is subscriptable too.\<close>

fun subscript :: "cfgval \<Rightarrow> nat \<Rightarrow> error + pyval" where
  "subscript (Seq xs) i = (if i < length xs then Inr (xs ! i) else Inl IndexError)"
| "subscript (Scalar (PStr s)) i = (if i < length s then Inr (PStr [s ! i]) else Inl IndexError)"
| "subscript (Scalar (PInt n)) i = Inl TypeError"

definition create_output_binary ::
  "(string \<Rightarrow> string \<Rightarrow> pyval \<Rightarrow> files \<Rightarrow> files) \<Rightarrow> string \<Rightarrow> string \<Rightarrow> config \<Rightarrow> files \<Rightarrow> outcome" where
  "create_output_binary dd bootloader_file output_file config fs =
     (case get_length fs bootloader_file of
        Inl e \<Rightarrow> Failed e fs
      | Inr len \<Rightarrow>
          (case and_then (lookup config ''bootloader_size'') (int_gt len) of
             Inl e \<Rightarrow> Failed e fs
           | Inr True \<Rightarrow> Failed SizeExceeded fs
           | Inr False \<Rightarrow> Done (dd bootloader_file output_file (PInt 0) fs)))"

fun append_images_loop ::
  "(string \<Rightarrow> string \<Rightarrow> pyval \<Rightarrow> files \<Rightarrow> files) \<Rightarrow> string \<Rightarrow> config \<Rightarrow> nat \<Rightarrow> string list
     \<Rightarrow> files \<Rightarrow> outcome" where
  "append_images_loop dd output_file config index [] fs = Done fs"
| "append_images_loop dd output_file config index (image_file # rest) fs =
     (case get_length fs image_file of
        Inl e \<Rightarrow> Failed e fs
      | Inr len \<Rightarrow>
          (case and_then (lookup config ''max_image_size'') (int_gt len) of
             Inl e \<Rightarrow> Failed e fs
           | Inr True \<Rightarrow> Failed SizeExceeded fs
           | Inr False \<Rightarrow>
               (case and_then (lookup config ''image_begin_addresses'') (\<lambda>a. subscript a index) of
                  Inl e \<Rightarrow> Failed e fs
                | Inr offset \<Rightarrow>
                    append_images_loop dd output_file config (Suc index) rest
                      (dd image_file output_file offset fs))))"

definition append_images_to_binary ::
  "(string \<Rightarrow> string \<Rightarrow> pyval \<Rightarrow> files \<Rightarrow> files) \<Rightarrow> string list \<Rightarrow> string \<Rightarrow> config \<Rightarrow> files
     \<Rightarrow> outcome" where
  "append_images_to_binary dd image_files output_file config fs =
     append_images_loop dd output_file config 0 image_files fs"

text \<open>
  \<open>file.seek(offset); file.write(data)\<close> on a file opened \<open>rb+\<close>: the bytes replace
  what is there, a position past the end is reached by zero bytes, and writing nothing
  leaves the file as it is.
\<close>

definition write_at :: "byte list \<Rightarrow> nat \<Rightarrow> byte list \<Rightarrow> byte list" where
  "write_at content pos data =
     (if data = [] then content
      else take pos content @ replicate (pos - length content) 0 @ data
             @ drop (pos + length data) content)"

text \<open>
  \<open>seek\<close> takes an integer position.  The operating system refuses a negative one;
  one from \<open>2^63\<close> on does not fit the offset type, a \<open>ValueError\<close>; and one
  beyond \<open>max_offset\<close>, the largest offset the file system of the output file
  supports, is refused by the operating system again.
\<close>

fun seek_position :: "nat \<Rightarrow> cfgval \<Rightarrow> error + nat" where
  "seek_position max_offset (Scalar (PInt n)) =
     (if n < 0 then Inl FileAccessError
      else if 2 ^ 63 \<le> n then Inl ValueError
      else if int max_offset < n then Inl FileAccessError
      else Inr (nat n))"
| "seek_position max_offset (Scalar (PStr s)) = Inl TypeError"
| "seek_position max_offset (Seq xs) = Inl TypeError"

text \<open>
  \<open>file.write(data)\<close> at the position sought, flushed when the \<open>with\<close> block
  closes the file: the bytes below \<open>max_offset\<close> reach the file, and when some do not
  the flush raises.
\<close>

definition file_write ::
  "nat \<Rightarrow> string \<Rightarrow> byte list \<Rightarrow> nat \<Rightarrow> byte list \<Rightarrow> files \<Rightarrow> outcome" where
  "file_write max_offset path content pos data fs =
     (if pos + length data \<le> max_offset
      then Done (fs(path \<mapsto> write_at content pos data))
      else Failed FileAccessError
             (fs(path \<mapsto> write_at content pos (take (max_offset - pos) data))))"

text \<open>\<open>+\<close> and \<open>* index\<close> on configuration values; lists concatenate and repeat.\<close>

fun cfg_add :: "cfgval \<Rightarrow> cfgval \<Rightarrow> error + cfgval" where
  "cfg_add (Scalar a) (Scalar b) = and_then (py_add a b) (\<lambda>v. Inr (Scalar v))"
| "cfg_add (Seq xs) (Seq ys) = Inr (Seq (xs @ ys))"
| "cfg_add (Scalar a) (Seq ys) = Inl TypeError"
| "cfg_add (Seq xs) (Scalar b) = Inl TypeError"

fun cfg_mul_int :: "cfgval \<Rightarrow> int \<Rightarrow> error + cfgval" where
  "cfg_mul_int (Scalar a) i = and_then (py_mul a (PInt i)) (\<lambda>v. Inr (Scalar v))"
| "cfg_mul_int (Seq xs) i = Inr (Seq (concat (replicate (nat i) xs)))"

text \<open>\<open>config[first] + config["size_of_metadata"] * index\<close>.\<close>

definition field_offset :: "config \<Rightarrow> string \<Rightarrow> nat \<Rightarrow> error + cfgval" where
  "field_offset config first index =
     and_then (lookup config first) (\<lambda>a.
     and_then (lookup config ''size_of_metadata'') (\<lambda>s.
     and_then (cfg_mul_int s (int index)) (\<lambda>p.
       cfg_add a p)))"

text \<open>
  \<open>int.to_bytes(n, byteorder)\<close>: the byte order must be the string \<open>little\<close> or
  \<open>big\<close>; a negative value or one that needs more than \<open>n\<close> bytes raises
  \<open>OverflowError\<close>.
\<close>

definition little_endian :: "nat \<Rightarrow> int \<Rightarrow> byte list" where
  "little_endian n v = map (\<lambda>k. word_of_int (v div 256 ^ k mod 256)) [0..<n]"

fun to_bytes :: "int \<Rightarrow> nat \<Rightarrow> cfgval \<Rightarrow> error + byte list" where
  "to_bytes v n (Scalar (PStr byteorder)) =
     (if byteorder = ''little'' \<or> byteorder = ''big'' then
        (if v < 0 \<or> 256 ^ n \<le> v then Inl OverflowError
         else Inr (if byteorder = ''little'' then little_endian n v
                   else rev (little_endian n v)))
      else Inl ValueError)"
| "to_bytes v n (Scalar (PInt b)) = Inl TypeError"
| "to_bytes v n (Seq xs) = Inl TypeError"

text \<open>
  The common body of the four per-image writers: the offset is computed, the output file
  opened, the position sought, the bytes produced and written, in this order.
\<close>

definition write_field ::
  "nat \<Rightarrow> string \<Rightarrow> error + cfgval \<Rightarrow> error + byte list \<Rightarrow> files \<Rightarrow> outcome" where
  "write_field max_offset output_file offset bytes fs =
     (case offset of
        Inl e \<Rightarrow> Failed e fs
      | Inr off \<Rightarrow>
          (case fs output_file of
             None \<Rightarrow> Failed FileAccessError fs
           | Some content \<Rightarrow>
               (case seek_position max_offset off of
                  Inl e \<Rightarrow> Failed e fs
                | Inr pos \<Rightarrow>
                    (case bytes of
                       Inl e \<Rightarrow> Failed e fs
                     | Inr data \<Rightarrow> file_write max_offset output_file content pos data fs))))"

definition write_hmac_key ::
  "nat \<Rightarrow> string \<Rightarrow> string option \<Rightarrow> config \<Rightarrow> files \<Rightarrow> outcome" where
  "write_hmac_key max_offset output_file key_file config fs =
     (case fs output_file of
        None \<Rightarrow> Failed FileAccessError fs
      | Some content \<Rightarrow>
          (case key_file of
             None \<Rightarrow> Failed TypeError fs
           | Some path \<Rightarrow>
               (case fs path of
                  None \<Rightarrow> Failed FileAccessError fs
                | Some key \<Rightarrow>
                    (case and_then (lookup config ''hmac_key_offset'')
                            (seek_position max_offset) of
                       Inl e \<Rightarrow> Failed e fs
                     | Inr pos \<Rightarrow> file_write max_offset output_file content pos key fs))))"

definition write_crc ::
  "nat \<Rightarrow> string \<Rightarrow> int \<Rightarrow> nat \<Rightarrow> config \<Rightarrow> files \<Rightarrow> outcome" where
  "write_crc max_offset output_file crc_value index config fs =
     write_field max_offset output_file (field_offset config ''first_crc_offset'' index)
       (and_then (lookup config ''byteorder'') (to_bytes crc_value 4)) fs"

definition write_length ::
  "nat \<Rightarrow> string \<Rightarrow> int \<Rightarrow> nat \<Rightarrow> config \<Rightarrow> files \<Rightarrow> outcome" where
  "write_length max_offset output_file len index config fs =
     write_field max_offset output_file (field_offset config ''first_length_offset'' index)
       (and_then (lookup config ''byteorder'') (to_bytes len 4)) fs"

definition write_completion_status ::
  "nat \<Rightarrow> string \<Rightarrow> int \<Rightarrow> nat \<Rightarrow> config \<Rightarrow> files \<Rightarrow> outcome" where
  "write_completion_status max_offset output_file status index config fs =
     write_field max_offset output_file (field_offset config ''first_completion_status_offset'' index)
       (and_then (lookup config ''byteorder'') (to_bytes status 2)) fs"

definition write_hmac_signature ::
  "nat \<Rightarrow> string \<Rightarrow> byte list option \<Rightarrow> nat \<Rightarrow> config \<Rightarrow> files \<Rightarrow> outcome" where
  "write_hmac_signature max_offset output_file signature index config fs =
     write_field max_offset output_file (field_offset config ''first_hmac_offset'' index)
       (case signature of None \<Rightarrow> Inl TypeError | Some data \<Rightarrow> Inr data) fs"

fun fix_metadata_loop ::
  "nat \<Rightarrow> string \<Rightarrow> config \<Rightarrow> nat \<Rightarrow> ImageMetadata list \<Rightarrow> files \<Rightarrow> outcome" where
  "fix_metadata_loop max_offset output_file config index [] fs = Done fs"
| "fix_metadata_loop max_offset output_file config index (img # rest) fs =
     then_do (write_crc max_offset output_file (crc img) index config fs) (\<lambda>fs1.
     then_do (write_length max_offset output_file (length' img) index config fs1) (\<lambda>fs2.
     then_do (write_completion_status max_offset output_file (completion_status img) index
                config fs2) (\<lambda>fs3.
     then_do (write_hmac_signature max_offset output_file (hmac_signature img) index
                config fs3) (\<lambda>fs4.
       fix_metadata_loop max_offset output_file config (Suc index) rest fs4))))"

definition fix_metadata ::
  "nat \<Rightarrow> string \<Rightarrow> GlobalImageMetadata \<Rightarrow> config \<Rightarrow> files \<Rightarrow> outcome" where
  "fix_metadata max_offset output_file global_metadata config fs =
     then_do (write_hmac_key max_offset output_file (hmac_key_file global_metadata) config fs)
       (fix_metadata_loop max_offset output_file config 0 (images global_metadata))"

text \<open>
  The script body after the configuration is loaded: extract the metadata of every image,
  place the bootloader, place the images, patch the metadata.
\<close>

fun extract_all ::
  "(byte list \<Rightarrow> 32 word) \<Rightarrow> (byte list \<Rightarrow> byte list \<Rightarrow> byte list) \<Rightarrow> files
     \<Rightarrow> GlobalImageMetadata \<Rightarrow> string list \<Rightarrow> string \<Rightarrow> error + GlobalImageMetadata" where
  "extract_all crc32c hmac_sha256 fs gm [] key_file = Inr gm"
| "extract_all crc32c hmac_sha256 fs gm (image_file # rest) key_file =
     and_then (extract_image_metadata crc32c hmac_sha256 fs gm image_file key_file) (\<lambda>gm'.
       extract_all crc32c hmac_sha256 fs gm' rest key_file)"

definition main ::
  "nat \<Rightarrow> (byte list \<Rightarrow> 32 word) \<Rightarrow> (byte list \<Rightarrow> byte list \<Rightarrow> byte list)
     \<Rightarrow> (string \<Rightarrow> string \<Rightarrow> pyval \<Rightarrow> files \<Rightarrow> files)
     \<Rightarrow> config \<Rightarrow> string list \<Rightarrow> string \<Rightarrow> string \<Rightarrow> string \<Rightarrow> files \<Rightarrow> outcome" where
  "main max_offset crc32c hmac_sha256 dd config image_files bootloader key_file out fs =
     (case extract_all crc32c hmac_sha256 fs GlobalImageMetadata_init image_files key_file of
        Inl e \<Rightarrow> Failed e fs
      | Inr global_image_metadata \<Rightarrow>
          then_do (create_output_binary dd bootloader out config fs) (\<lambda>fs1.
          then_do (append_images_to_binary dd image_files out config fs1) (\<lambda>fs2.
            fix_metadata max_offset out global_image_metadata config fs2)))"

section \<open>Concrete inputs and statement helpers\<close>

text \<open>Sizes dictionaries all of whose values are integers.\<close>

fun int_sizes :: "(string \<times> int) list \<Rightarrow> sizes" where
  "int_sizes [] = []"
| "int_sizes ((k, n) # rest) = (k, PInt n) # int_sizes rest"

text \<open>A platform description with two slots, 32-bit words and 32-byte keys and signatures.\<close>

definition example_platform :: platform where
  "example_platform =
     [''name'' \<mapsto> PStr ''board'',
      ''number_of_images'' \<mapsto> PInt 2,
      ''bootloader_size'' \<mapsto> PInt 0x1000,
      ''max_image_size'' \<mapsto> PInt 0x8000,
      ''metadata_label_address'' \<mapsto> PInt 0x20000,
      ''pointer_size'' \<mapsto> PInt 4,
      ''size_t_size'' \<mapsto> PInt 4,
      ''hmac_key_size'' \<mapsto> PInt 32,
      ''hmac_signature_size'' \<mapsto> PInt 32,
      ''byteorder'' \<mapsto> PStr ''little'']"

text \<open>The example with \<open>pointer_size: "4"\<close>, a string, and with no \<open>pointer_size\<close>.\<close>

definition string_pointer_platform :: platform where
  "string_pointer_platform = example_platform(''pointer_size'' \<mapsto> PStr ''4'')"

definition no_pointer_platform :: platform where
  "no_pointer_platform = example_platform(''pointer_size'' := None)"

text \<open>
  The fields \<open>generate_config\<close> indexes the platform description with, and those of
  them it computes with.
\<close>

definition required_fields :: "string list" where
  "required_fields =
     [''name'', ''number_of_images'', ''bootloader_size'', ''max_image_size'',
      ''metadata_label_address'', ''pointer_size'', ''size_t_size'', ''hmac_key_size'',
      ''hmac_signature_size'', ''byteorder'']"

definition numeric_fields :: "string list" where
  "numeric_fields =
     [''number_of_images'', ''bootloader_size'', ''max_image_size'',
      ''metadata_label_address'', ''pointer_size'', ''size_t_size'', ''hmac_key_size'',
      ''hmac_signature_size'']"

definition fields_present :: "platform \<Rightarrow> bool" where
  "fields_present p = list_all (\<lambda>k. p k \<noteq> None) required_fields"

fun int_or_absent :: "pyval option \<Rightarrow> bool" where
  "int_or_absent None = True"
| "int_or_absent (Some (PInt n)) = True"
| "int_or_absent (Some (PStr s)) = False"

definition numeric_fields_int :: "platform \<Rightarrow> bool" where
  "numeric_fields_int p = list_all (\<lambda>k. int_or_absent (p k)) numeric_fields"

text \<open>A result that is a value or \<open>KeyError\<close>.\<close>

definition key_only :: "error + 'a \<Rightarrow> bool" where
  "key_only r = (case r of Inl e \<Rightarrow> e = KeyError | Inr _ \<Rightarrow> True)"

text \<open>
  A layout for the composer: 12 bytes of counters, three 32-byte keys, records of 60 bytes
  from offset 108 on; slots of 8 bytes after a bootloader of 8 bytes.
\<close>

definition example_config :: config where
  "example_config =
     [''name'' \<mapsto> Scalar (PStr ''board''),
      ''image_begin_addresses'' \<mapsto> Seq [PInt 8, PInt 16],
      ''size_of_metadata'' \<mapsto> Scalar (PInt 60),
      ''hmac_key_offset'' \<mapsto> Scalar (PInt 12),
      ''first_image_metadata_offset'' \<mapsto> Scalar (PInt 108),
      ''first_crc_offset'' \<mapsto> Scalar (PInt 112),
      ''first_length_offset'' \<mapsto> Scalar (PInt 128),
      ''first_completion_status_offset'' \<mapsto> Scalar (PInt 132),
      ''first_hmac_offset'' \<mapsto> Scalar (PInt 136),
      ''bootloader_size'' \<mapsto> Scalar (PInt 8),
      ''byteorder'' \<mapsto> Scalar (PStr ''little''),
      ''max_image_size'' \<mapsto> Scalar (PInt 8)]"

text \<open>A file system that takes offsets up to \<open>2^40\<close>, for the example runs.\<close>

definition example_limit :: nat where
  "example_limit = 2 ^ 40"

text \<open>Stand-ins for the two library functions, for the example runs.\<close>

definition zero_crc :: "byte list \<Rightarrow> 32 word" where
  "zero_crc data = 0"

definition zero_digest :: "byte list \<Rightarrow> byte list \<Rightarrow> byte list" where
  "zero_digest key data = replicate 32 0"

text \<open>
  What the placement results need of \<open>dd\<close>: it touches no file but its \<open>of=\<close>
  target.  \<open>dd_copy\<close> is \<open>dd conv=notrunc bs=1 seek=n\<close> for an integer
  \<open>n \<ge> 0\<close>, and rejects any other \<open>seek\<close>.
\<close>

definition writes_only_target :: "(string \<Rightarrow> string \<Rightarrow> pyval \<Rightarrow> files \<Rightarrow> files) \<Rightarrow> bool" where
  "writes_only_target dd = (\<forall>src dst off fs f. f \<noteq> dst \<longrightarrow> dd src dst off fs f = fs f)"

definition dd_copy :: "string \<Rightarrow> string \<Rightarrow> pyval \<Rightarrow> files \<Rightarrow> files" where
  "dd_copy src dst off fs =
     (case (fs src, off) of
        (Some data, PInt n) \<Rightarrow>
          (if 0 \<le> n
           then fs(dst \<mapsto> write_at (case fs dst of None \<Rightarrow> [] | Some c \<Rightarrow> c) (nat n) data)
           else fs)
      | _ \<Rightarrow> fs)"

text \<open>Input files for the example layout: 8 bytes fit a slot, 9 do not.\<close>

definition example_files :: files where
  "example_files =
     [''boot.bin'' \<mapsto> replicate 8 1,
      ''big_boot.bin'' \<mapsto> replicate 9 1,
      ''app.bin'' \<mapsto> replicate 8 2,
      ''big_app.bin'' \<mapsto> replicate 9 2,
      ''key'' \<mapsto> [7]]"

text \<open>
  Reading back: \<open>seek(pos); read(n)\<close> on a stored file, and Python's
  \<open>int.from_bytes\<close> on what was read.
\<close>

definition read_at :: "files \<Rightarrow> string \<Rightarrow> nat \<Rightarrow> nat \<Rightarrow> byte list option" where
  "read_at fs path pos n =
     (case fs path of None \<Rightarrow> None | Some content \<Rightarrow> Some (take n (drop pos content)))"

fun le_value :: "byte list \<Rightarrow> int" where
  "le_value [] = 0"
| "le_value (b # bs) = uint b + 256 * le_value bs"

definition from_bytes :: "string \<Rightarrow> byte list \<Rightarrow> int option" where
  "from_bytes byteorder data =
     (if byteorder = ''little'' then Some (le_value data)
      else if byteorder = ''big'' then Some (le_value (rev data))
      else None)"

definition read_int :: "files \<Rightarrow> string \<Rightarrow> nat \<Rightarrow> nat \<Rightarrow> string \<Rightarrow> int option" where
  "read_int fs path pos n byteorder =
     (case read_at fs path pos n of None \<Rightarrow> None | Some data \<Rightarrow> from_bytes byteorder data)"

text \<open>The bytes \<open>to_bytes\<close> returns for a value in range.\<close>

definition byte_string :: "string \<Rightarrow> nat \<Rightarrow> int \<Rightarrow> byte list" where
  "byte_string byteorder n v =
     (if byteorder = ''little'' then little_endian n v else rev (little_endian n v))"

text \<open>\<open>holds content pos data\<close>: the file has \<open>data\<close> at \<open>pos\<close>.\<close>

definition holds :: "byte list \<Rightarrow> nat \<Rightarrow> byte list \<Rightarrow> bool" where
  "holds content pos data = (take (length data) (drop pos content) = data)"

text \<open>
  The content of the output file after the four writes of one record, and after the
  records of a list from slot \<open>i\<close> on.
\<close>

definition patch_record ::
  "string \<Rightarrow> nat \<Rightarrow> nat \<Rightarrow> nat \<Rightarrow> nat \<Rightarrow> ImageMetadata \<Rightarrow> byte list \<Rightarrow> byte list" where
  "patch_record bo c l s h r x =
     write_at (write_at (write_at (write_at x
       c (byte_string bo 4 (crc r)))
       l (byte_string bo 4 (length' r)))
       s (byte_string bo 2 (completion_status r)))
       h (case hmac_signature r of None \<Rightarrow> [] | Some sg \<Rightarrow> sg)"

fun patch_records ::
  "string \<Rightarrow> nat \<Rightarrow> nat \<Rightarrow> nat \<Rightarrow> nat \<Rightarrow> nat \<Rightarrow> nat \<Rightarrow> ImageMetadata list \<Rightarrow> byte list \<Rightarrow> byte list" where
  "patch_records bo c l s h S i [] x = x"
| "patch_records bo c l s h S i (r # rest) x =
     patch_records bo c l s h S (Suc i) rest
       (patch_record bo (c + S * i) (l + S * i) (s + S * i) (h + S * i) r x)"

text \<open>
  A record whose integers fit their fields and whose signature, written at \<open>h\<close>,
  ends by \<open>limit\<close>.
\<close>

definition valid_record :: "nat \<Rightarrow> nat \<Rightarrow> ImageMetadata \<Rightarrow> bool" where
  "valid_record h limit r =
     (0 \<le> crc r \<and> crc r < 2 ^ 32 \<and> 0 \<le> length' r \<and> length' r < 2 ^ 32
      \<and> 0 \<le> completion_status r \<and> completion_status r < 2 ^ 16
      \<and> (case hmac_signature r of None \<Rightarrow> False | Some sg \<Rightarrow> h + length sg \<le> limit))"

text \<open>What a run left at a position of a file; nothing when the run raised.\<close>

fun read_result :: "outcome \<Rightarrow> string \<Rightarrow> nat \<Rightarrow> nat \<Rightarrow> byte list option" where
  "read_result (Done fs) path pos n = read_at fs path pos n"
| "read_result (Failed e fs) path pos n = None"

text \<open>
  The example platform with the metadata at address 0 and \<open>hmac_signature_size: 16\<close>,
  the layout \<open>generate_config\<close> computes for it, two records with 32-byte
  signatures, and an empty output file beside the key file.
\<close>

definition short_signature_platform :: platform where
  "short_signature_platform =
     example_platform(''metadata_label_address'' \<mapsto> PInt 0,
                      ''hmac_signature_size'' \<mapsto> PInt 16)"

definition short_signature_config :: config where
  "short_signature_config =
     [''name'' \<mapsto> Scalar (PStr ''board''),
      ''image_begin_addresses'' \<mapsto> Seq [PInt 0x1000, PInt 0x9000],
      ''size_of_metadata'' \<mapsto> Scalar (PInt 44),
      ''hmac_key_offset'' \<mapsto> Scalar (PInt 12),
      ''first_image_metadata_offset'' \<mapsto> Scalar (PInt 108),
      ''first_crc_offset'' \<mapsto> Scalar (PInt 112),
      ''first_length_offset'' \<mapsto> Scalar (PInt 128),
      ''first_completion_status_offset'' \<mapsto> Scalar (PInt 132),
      ''first_hmac_offset'' \<mapsto> Scalar (PInt 136),
      ''bootloader_size'' \<mapsto> Scalar (PInt 0x1000),
      ''byteorder'' \<mapsto> Scalar (PStr ''little''),
      ''max_image_size'' \<mapsto> Scalar (PInt 0x8000)]"

definition two_images :: GlobalImageMetadata where
  "two_images =
     \<lparr>hmac_key_file = Some ''key'',
      images =
        [\<lparr>crc = 1, completion_status = 1, hmac_signature = Some (replicate 32 0xAA),
           length' = 8, file_name = ''app.bin''\<rparr>,
         \<lparr>crc = 2, completion_status = 1, hmac_signature = Some (replicate 32 0xBB),
           length' = 8, file_name = ''app.bin''\<rparr>]\<rparr>"

definition patch_files :: files where
  "patch_files = [''out.bin'' \<mapsto> [], ''key'' \<mapsto> [7]]"

text \<open>
  A record whose integers fit their fields and whose four writes, at the positions given,
  end by the largest offset \<open>lim\<close>.
\<close>

definition record_fits :: "nat \<Rightarrow> nat \<Rightarrow> nat \<Rightarrow> nat \<Rightarrow> nat \<Rightarrow> ImageMetadata \<Rightarrow> bool" where
  "record_fits lim c l s h r =
     (0 \<le> crc r \<and> crc r < 2 ^ 32 \<and> 0 \<le> length' r \<and> length' r < 2 ^ 32
      \<and> 0 \<le> completion_status r \<and> completion_status r < 2 ^ 16
      \<and> c + 4 \<le> lim \<and> l + 4 \<le> lim \<and> s + 2 \<le> lim
      \<and> (case hmac_signature r of None \<Rightarrow> False | Some sg \<Rightarrow> h + length sg \<le> lim))"

section \<open>The layout calculator\<close>

subsection \<open>Image begin addresses\<close>

lemma begin_addresses_loop_ints:
  assumes "platform ''bootloader_size'' = Some (PInt b)"
      and "platform ''max_image_size'' = Some (PInt m)"
  shows "begin_addresses_loop platform is acc = Inr (acc @ map (\<lambda>i. PInt (b + i * m)) is)"
  using assms by (induction "is" arbitrary: acc) (simp_all add: lookup_def)

text \<open>
  C1. For a platform description with slot count \<open>n\<close>, bootloader size \<open>b\<close> and slot
  size \<open>m\<close>, \<open>generate_image_begin_addresses\<close> stores a list of length \<open>n\<close> whose
  \<open>i\<close>-th entry is \<open>b + i * m\<close>.
\<close>

theorem image_begin_addresses_formula:
  assumes "platform ''number_of_images'' = Some (PInt (int n))"
      and "platform ''bootloader_size'' = Some (PInt b)"
      and "platform ''max_image_size'' = Some (PInt m)"
  shows "\<exists>addrs. generate_image_begin_addresses platform config
             = Inr (config(''image_begin_addresses'' \<mapsto> Seq addrs))
           \<and> length addrs = n
           \<and> (\<forall>i<n. addrs ! i = PInt (b + int i * m))"
proof -
  let ?addrs = "map (\<lambda>i. PInt (b + int i * m)) [0..<n]"
  have "generate_image_begin_addresses platform config
          = Inr (config(''image_begin_addresses'' \<mapsto> Seq ?addrs))"
    using assms
    by (simp add: generate_image_begin_addresses_def lookup_def begin_addresses_loop_ints comp_def)
  moreover have "length ?addrs = n" by simp
  moreover have "\<forall>i<n. ?addrs ! i = PInt (b + int i * m)" by simp
  ultimately show ?thesis by blast
qed

text \<open>
  The instance of the specification: bootloader size \<open>0x1000\<close>, slot size \<open>0x8000\<close>
  and two slots give the addresses \<open>0x1000\<close> and \<open>0x9000\<close>.
\<close>

theorem image_begin_addresses_formula_witness:
  "example_platform ''number_of_images'' = Some (PInt (int 2))
   \<and> example_platform ''bootloader_size'' = Some (PInt 0x1000)
   \<and> example_platform ''max_image_size'' = Some (PInt 0x8000)
   \<and> generate_image_begin_addresses example_platform Map.empty
       = Inr [''image_begin_addresses'' \<mapsto> Seq [PInt 0x1000, PInt 0x9000]]"
proof -
  have h1: "example_platform ''number_of_images'' = Some (PInt (int 2))"
    and h2: "example_platform ''bootloader_size'' = Some (PInt 0x1000)"
    and h3: "example_platform ''max_image_size'' = Some (PInt 0x8000)"
    by (simp_all add: example_platform_def)
  from image_begin_addresses_formula [OF h1 h2 h3, of Map.empty]
  obtain addrs where res: "generate_image_begin_addresses example_platform Map.empty
        = Inr [''image_begin_addresses'' \<mapsto> Seq addrs]"
    and len: "length addrs = 2"
    and nth: "\<forall>i<2. addrs ! i = PInt (0x1000 + int i * 0x8000)"
    by blast
  from len obtain x y where xy: "addrs = [x, y]"
    by (cases addrs; cases "tl addrs"; cases "tl (tl addrs)") auto
  from nth have "addrs ! 0 = PInt 0x1000" and "addrs ! 1 = PInt 0x9000"
    by (simp_all add: numeral_2_eq_2)
  with xy have "addrs = [PInt 0x1000, PInt 0x9000]" by simp
  with res h1 h2 h3 show ?thesis by simp
qed

subsection \<open>Size of one metadata record\<close>

lemma fill_image_sizes:
  assumes "platform ''pointer_size'' = Some ps"
      and "platform ''hmac_signature_size'' = Some hs"
  shows "fill_sizes platform IMAGE_METADATA_SIZES_TEMPLATE [] = Inr
     [(''version'', PInt 4),
      (''crc'', PInt 4),
      (''bootcounter'', PInt 4),
      (''lastSuccessStatus'', PInt 4),
      (''imageBegin'', ps),
      (''length'', PInt 4),
      (''completionStatus'', PInt 2),
      (''protectionStatus'', PInt 2),
      (''hmacSignature'', hs)]"
  using assms by (simp add: IMAGE_METADATA_SIZES_TEMPLATE_def lookup_def)

lemma fill_global_sizes:
  assumes "platform ''size_t_size'' = Some st"
      and "platform ''hmac_key_size'' = Some hk"
  shows "fill_sizes platform GLOBAL_METADATA_SIZE_TEMPLATE [] = Inr
     [(''globalBootCounter'', PInt 4),
      (''prefferedImage'', st),
      (''currentImage'', st),
      (''hmacKey1'', hk),
      (''hmacKey2'', hk),
      (''hmacKey3'', hk),
      (''imageMetadata'', PInt 0)]"
  using assms by (simp add: GLOBAL_METADATA_SIZE_TEMPLATE_def lookup_def)

text \<open>
  C3. \<open>size_of_metadata\<close> is the sum of the nine per-image widths
  \<open>4 + 4 + 4 + 4 + pointer_size + 4 + 2 + 2 + hmac_signature_size\<close>.
\<close>

theorem size_of_metadata_sum:
  assumes "platform ''pointer_size'' = Some (PInt ps)"
      and "platform ''hmac_signature_size'' = Some (PInt hs)"
  shows "\<exists>ms. generate_size_of_metadata platform config
           = Inr (config(''size_of_metadata'' \<mapsto>
                    Scalar (PInt (4 + 4 + 4 + 4 + ps + 4 + 2 + 2 + hs))), ms)"
  using assms by (simp add: generate_size_of_metadata_def fill_image_sizes)

text \<open>With \<open>pointer_size = 4\<close> and \<open>hmac_signature_size = 32\<close> the record has 60 bytes.\<close>

theorem size_of_metadata_sum_witness:
  "example_platform ''pointer_size'' = Some (PInt 4)
   \<and> example_platform ''hmac_signature_size'' = Some (PInt 32)
   \<and> (\<exists>ms. generate_size_of_metadata example_platform Map.empty
          = Inr ([''size_of_metadata'' \<mapsto> Scalar (PInt 60)], ms))"
proof -
  have h1: "example_platform ''pointer_size'' = Some (PInt 4)"
    and h2: "example_platform ''hmac_signature_size'' = Some (PInt 32)"
    by (simp_all add: example_platform_def)
  from size_of_metadata_sum [OF h1 h2, of Map.empty] h1 h2 show ?thesis by simp
qed

subsection \<open>Offsets\<close>

lemma walk_sizes_missing:
  "prop \<notin> fst ` set items \<Longrightarrow>
   walk_sizes prop (PInt off) (int_sizes items)
     = Inr (Passed (PInt (off + sum_list (map snd items))))"
  by (induction items arbitrary: off) (auto simp: add.assoc)

text \<open>
  C2. Each offset that \<open>generate_offsets\<close> stores is \<open>metadata_label_address\<close> plus the
  widths of the fields before the requested one: first the global fields
  (4, \<open>size_t_size\<close> twice, \<open>hmac_key_size\<close> three times, the sentinel of width 0),
  then the per-image fields (4, 4, 4, 4, \<open>pointer_size\<close>, 4, 2, 2).
\<close>

theorem offsets_accumulate_widths:
  assumes "platform ''metadata_label_address'' = Some (PInt a)"
      and "platform ''size_t_size'' = Some (PInt st)"
      and "platform ''hmac_key_size'' = Some (PInt hk)"
      and "platform ''pointer_size'' = Some (PInt ps)"
      and "platform ''hmac_signature_size'' = Some (PInt hs)"
  shows "\<exists>c1 ms gs.
           generate_size_of_metadata platform c0 = Inr (c1, ms)
         \<and> generate_global_metadata_sizes platform = Inr gs
         \<and> generate_offsets platform c1 ms gs = Inr (c1
             (''hmac_key_offset'' \<mapsto> Scalar (PInt (a + (4 + st + st))),
              ''first_image_metadata_offset'' \<mapsto>
                 Scalar (PInt (a + (4 + st + st + hk + hk + hk))),
              ''first_crc_offset'' \<mapsto>
                 Scalar (PInt (a + (4 + st + st + hk + hk + hk + 0 + 4))),
              ''first_length_offset'' \<mapsto>
                 Scalar (PInt (a + (4 + st + st + hk + hk + hk + 0 + 4 + 4 + 4 + 4 + ps))),
              ''first_completion_status_offset'' \<mapsto>
                 Scalar (PInt (a + (4 + st + st + hk + hk + hk + 0 + 4 + 4 + 4 + 4 + ps + 4))),
              ''first_hmac_offset'' \<mapsto>
                 Scalar (PInt (a + (4 + st + st + hk + hk + hk + 0 + 4 + 4 + 4 + 4 + ps + 4 + 2 + 2)))))"
  using assms
  by (simp add: generate_size_of_metadata_def generate_global_metadata_sizes_def
        fill_image_sizes fill_global_sizes generate_offsets_def get_offset_of_def lookup_def
        algebra_simps)

theorem offsets_accumulate_widths_witness:
  "example_platform ''metadata_label_address'' = Some (PInt 0x20000)
   \<and> example_platform ''size_t_size'' = Some (PInt 4)
   \<and> example_platform ''hmac_key_size'' = Some (PInt 32)
   \<and> example_platform ''pointer_size'' = Some (PInt 4)
   \<and> example_platform ''hmac_signature_size'' = Some (PInt 32)
   \<and> (\<exists>c1 ms gs.
           generate_size_of_metadata example_platform Map.empty = Inr (c1, ms)
         \<and> generate_global_metadata_sizes example_platform = Inr gs
         \<and> generate_offsets example_platform c1 ms gs = Inr (c1
             (''hmac_key_offset'' \<mapsto> Scalar (PInt 0x2000C),
              ''first_image_metadata_offset'' \<mapsto> Scalar (PInt 0x2006C),
              ''first_crc_offset'' \<mapsto> Scalar (PInt 0x20070),
              ''first_length_offset'' \<mapsto> Scalar (PInt 0x20080),
              ''first_completion_status_offset'' \<mapsto> Scalar (PInt 0x20084),
              ''first_hmac_offset'' \<mapsto> Scalar (PInt 0x20088))))"
proof -
  have h1: "example_platform ''metadata_label_address'' = Some (PInt 0x20000)"
    and h2: "example_platform ''size_t_size'' = Some (PInt 4)"
    and h3: "example_platform ''hmac_key_size'' = Some (PInt 32)"
    and h4: "example_platform ''pointer_size'' = Some (PInt 4)"
    and h5: "example_platform ''hmac_signature_size'' = Some (PInt 32)"
    by (simp_all add: example_platform_def)
  from offsets_accumulate_widths [OF h1 h2 h3 h4 h5, of Map.empty] h1 h2 h3 h4 h5
  show ?thesis by simp
qed

text \<open>
  C9. A property name that occurs in neither sizes dictionary makes \<open>get_offset_of\<close>
  return 0, not raise: the two loops end without a match and the final
  \<open>return 0\<close> is reached.
\<close>

theorem get_offset_of_unknown:
  assumes "platform ''metadata_label_address'' = Some (PInt a)"
      and "prop \<notin> fst ` set global_items"
      and "prop \<notin> fst ` set image_items"
  shows "get_offset_of prop platform (int_sizes image_items) (int_sizes global_items)
           = Inr (PInt 0)"
  using assms by (simp add: get_offset_of_def lookup_def walk_sizes_missing)

text \<open>The misspelling \<open>lenght\<close> on the example platform's sizes.\<close>

theorem get_offset_of_unknown_witness:
  "example_platform ''metadata_label_address'' = Some (PInt 0x20000)
   \<and> ''lenght'' \<notin> fst ` set [(''globalBootCounter'', 4 :: int), (''prefferedImage'', 4),
         (''currentImage'', 4), (''hmacKey1'', 32), (''hmacKey2'', 32), (''hmacKey3'', 32),
         (''imageMetadata'', 0)]
   \<and> ''lenght'' \<notin> fst ` set [(''version'', 4 :: int), (''crc'', 4), (''bootcounter'', 4),
         (''lastSuccessStatus'', 4), (''imageBegin'', 4), (''length'', 4),
         (''completionStatus'', 2), (''protectionStatus'', 2), (''hmacSignature'', 32)]
   \<and> get_offset_of ''lenght'' example_platform
         [(''version'', PInt 4), (''crc'', PInt 4), (''bootcounter'', PInt 4),
          (''lastSuccessStatus'', PInt 4), (''imageBegin'', PInt 4), (''length'', PInt 4),
          (''completionStatus'', PInt 2), (''protectionStatus'', PInt 2),
          (''hmacSignature'', PInt 32)]
         [(''globalBootCounter'', PInt 4), (''prefferedImage'', PInt 4),
          (''currentImage'', PInt 4), (''hmacKey1'', PInt 32), (''hmacKey2'', PInt 32),
          (''hmacKey3'', PInt 32), (''imageMetadata'', PInt 0)]
       = Inr (PInt 0)"
proof -
  let ?g = "[(''globalBootCounter'', 4 :: int), (''prefferedImage'', 4),
         (''currentImage'', 4), (''hmacKey1'', 32), (''hmacKey2'', 32), (''hmacKey3'', 32),
         (''imageMetadata'', 0)]"
  let ?m = "[(''version'', 4 :: int), (''crc'', 4), (''bootcounter'', 4),
         (''lastSuccessStatus'', 4), (''imageBegin'', 4), (''length'', 4),
         (''completionStatus'', 2), (''protectionStatus'', 2), (''hmacSignature'', 32)]"
  have h1: "example_platform ''metadata_label_address'' = Some (PInt 0x20000)"
    by (simp add: example_platform_def)
  have h2: "''lenght'' \<notin> fst ` set ?g" by simp
  have h3: "''lenght'' \<notin> fst ` set ?m" by simp
  from get_offset_of_unknown [of example_platform "0x20000" "''lenght''" ?g ?m, OF h1 h2 h3]
    h1 h2 h3
  show ?thesis by simp
qed

subsection \<open>Failure and totality\<close>

lemma key_only_simps [simp]: "key_only (Inr x)" "key_only (Inl e) = (e = KeyError)"
  by (simp_all add: key_only_def)

lemma key_only_and_then:
  "key_only x \<Longrightarrow> (\<And>y. x = Inr y \<Longrightarrow> key_only (f y)) \<Longrightarrow> key_only (and_then x f)"
  by (cases x) simp_all

lemma key_only_lookup: "key_only (lookup d k)"
  by (simp add: lookup_def split: option.splits)

lemma and_then_Inr_iff: "and_then x f = Inr c \<longleftrightarrow> (\<exists>y. x = Inr y \<and> f y = Inr c)"
  by (cases x) simp_all

lemma lookup_Inr_iff: "lookup d k = Inr v \<longleftrightarrow> d k = Some v"
  by (simp add: lookup_def split: option.splits)

lemma int_or_absent_cases: "int_or_absent v \<Longrightarrow> v = None \<or> (\<exists>n. v = Some (PInt n))"
  by (cases v rule: int_or_absent.cases) simp_all

lemma key_only_loop:
  assumes "int_or_absent (p ''bootloader_size'')" "int_or_absent (p ''max_image_size'')"
  shows "key_only (begin_addresses_loop p is acc)"
proof (cases "is")
  case Nil then show ?thesis by simp
next
  case (Cons i rest)
  from assms[THEN int_or_absent_cases] show ?thesis
  proof (elim disjE exE)
    fix b m assume "p ''bootloader_size'' = Some (PInt b)" "p ''max_image_size'' = Some (PInt m)"
    then show ?thesis by (simp add: begin_addresses_loop_ints)
  qed (simp_all add: Cons lookup_def)
qed

lemma key_only_addresses:
  assumes "numeric_fields_int p"
  shows "key_only (generate_image_begin_addresses p c)"
proof -
  from assms have a: "int_or_absent (p ''number_of_images'')"
    "int_or_absent (p ''bootloader_size'')" "int_or_absent (p ''max_image_size'')"
    by (simp_all add: numeric_fields_int_def numeric_fields_def)
  from a(1)[THEN int_or_absent_cases] show ?thesis
    by (auto simp: generate_image_begin_addresses_def lookup_def
          intro!: key_only_and_then key_only_loop a)
qed

lemma key_only_size:
  assumes "numeric_fields_int p"
  shows "key_only (generate_size_of_metadata p c)"
proof -
  from assms have a: "int_or_absent (p ''pointer_size'')"
    "int_or_absent (p ''hmac_signature_size'')"
    by (simp_all add: numeric_fields_int_def numeric_fields_def)
  from a[THEN int_or_absent_cases] show ?thesis
    by (elim disjE exE)
       (simp_all add: generate_size_of_metadata_def fill_image_sizes
          IMAGE_METADATA_SIZES_TEMPLATE_def lookup_def)
qed

lemma size_Inr:
  assumes "numeric_fields_int p" "generate_size_of_metadata p c = Inr (c', ms)"
  shows "\<exists>ps hs. ms = int_sizes [(''version'', 4),
      (''crc'', 4),
      (''bootcounter'', 4),
      (''lastSuccessStatus'', 4),
      (''imageBegin'', ps),
      (''length'', 4),
      (''completionStatus'', 2),
      (''protectionStatus'', 2),
      (''hmacSignature'', hs)]"
proof -
  from assms have a: "int_or_absent (p ''pointer_size'')"
    "int_or_absent (p ''hmac_signature_size'')"
    by (simp_all add: numeric_fields_int_def numeric_fields_def)
  from a[THEN int_or_absent_cases] assms(2) show ?thesis
    by (elim disjE exE)
       (auto simp add: generate_size_of_metadata_def fill_image_sizes
          IMAGE_METADATA_SIZES_TEMPLATE_def lookup_def)
qed

lemma global_key_only_Inr:
  assumes "numeric_fields_int p"
  shows "generate_global_metadata_sizes p = Inl KeyError \<or>
    (\<exists>st hk. generate_global_metadata_sizes p = Inr (int_sizes [(''globalBootCounter'', 4),
      (''prefferedImage'', st),
      (''currentImage'', st),
      (''hmacKey1'', hk),
      (''hmacKey2'', hk),
      (''hmacKey3'', hk),
      (''imageMetadata'', 0)]))"
proof -
  from assms have a: "int_or_absent (p ''size_t_size'')"
    "int_or_absent (p ''hmac_key_size'')"
    by (simp_all add: numeric_fields_int_def numeric_fields_def)
  from a[THEN int_or_absent_cases] show ?thesis
    by (elim disjE exE)
       (simp_all add: generate_global_metadata_sizes_def fill_global_sizes
          GLOBAL_METADATA_SIZE_TEMPLATE_def lookup_def)
qed

lemma walk_sizes_int_total:
  "\<exists>w. walk_sizes prop (PInt off) (int_sizes items) = Inr w \<and>
     (\<exists>n. w = Found (PInt n) \<or> w = Passed (PInt n))"
  by (induction items arbitrary: off) auto

lemma key_only_get_offset:
  assumes "int_or_absent (p ''metadata_label_address'')"
  shows "key_only (get_offset_of prop p (int_sizes ms) (int_sizes gs))"
proof -
  from assms[THEN int_or_absent_cases] show ?thesis
  proof
    assume "p ''metadata_label_address'' = None"
    then show ?thesis by (simp add: get_offset_of_def lookup_def)
  next
    assume "\<exists>n. p ''metadata_label_address'' = Some (PInt n)"
    then obtain a where a: "p ''metadata_label_address'' = Some (PInt a)" by blast
    obtain w n where w: "walk_sizes prop (PInt a) (int_sizes gs) = Inr w"
      "w = Found (PInt n) \<or> w = Passed (PInt n)"
      using walk_sizes_int_total by blast
    obtain w' n' where w': "walk_sizes prop (PInt n) (int_sizes ms) = Inr w'"
      "w' = Found (PInt n') \<or> w' = Passed (PInt n')"
      using walk_sizes_int_total by blast
    from a w w' show ?thesis
      by (auto simp: get_offset_of_def lookup_def)
  qed
qed

lemma key_only_offsets:
  assumes "int_or_absent (p ''metadata_label_address'')"
  shows "key_only (generate_offsets p c (int_sizes ms) (int_sizes gs))"
  unfolding generate_offsets_def
  by (intro key_only_and_then key_only_get_offset assms) simp

lemma key_only_build:
  assumes "numeric_fields_int p"
  shows "key_only (build_config p)"
proof -
  from assms have a: "int_or_absent (p ''metadata_label_address'')"
    by (simp_all add: numeric_fields_int_def numeric_fields_def)
  show ?thesis
    unfolding build_config_def
  proof (intro key_only_and_then key_only_lookup key_only_addresses key_only_size assms, goal_cases)
    case (1 name c1 x)
    obtain c2 ms where x: "x = (c2, ms)" by (cases x)
    from size_Inr[OF assms] 1 x obtain ps hs where ms: "ms = int_sizes [(''version'', 4),
      (''crc'', 4),
      (''bootcounter'', 4),
      (''lastSuccessStatus'', 4),
      (''imageBegin'', ps),
      (''length'', 4),
      (''completionStatus'', 2),
      (''protectionStatus'', 2),
      (''hmacSignature'', hs)]" by blast
    from global_key_only_Inr[OF assms] show ?case
    proof (elim disjE exE)
      assume "generate_global_metadata_sizes p = Inl KeyError"
      then show ?thesis by (simp add: x)
    next
      fix st hk assume g: "generate_global_metadata_sizes p =
       Inr (int_sizes
             [(''globalBootCounter'', 4), (''prefferedImage'', st),
              (''currentImage'', st), (''hmacKey1'', hk), (''hmacKey2'', hk),
              (''hmacKey3'', hk), (''imageMetadata'', 0)])"
      show ?thesis unfolding x ms g prod.case and_then.simps
        by (intro key_only_and_then key_only_offsets key_only_lookup a) simp
    qed
  qed
qed

lemma build_Inr_present:
  assumes "build_config p = Inr c"
  shows "fields_present p"
  using assms
  unfolding build_config_def generate_image_begin_addresses_def generate_size_of_metadata_def
    generate_global_metadata_sizes_def generate_offsets_def get_offset_of_def
    IMAGE_METADATA_SIZES_TEMPLATE_def GLOBAL_METADATA_SIZE_TEMPLATE_def
    fields_present_def required_fields_def
  by (auto simp: and_then_Inr_iff lookup_Inr_iff split: prod.splits)

lemma build_total:
  assumes "fields_present p" "numeric_fields_int p"
  shows "\<exists>c. build_config p = Inr c"
proof -
  from assms(1) obtain name bo where nb: "p ''name'' = Some name" "p ''byteorder'' = Some bo"
    by (auto simp: fields_present_def required_fields_def)
  from assms have "\<forall>k \<in> set numeric_fields. \<exists>n. p k = Some (PInt n)"
    using int_or_absent_cases
    by (fastforce simp: fields_present_def required_fields_def numeric_fields_int_def
          numeric_fields_def list_all_iff)
  then obtain n b m a ps st hk hs where f:
    "p ''number_of_images'' = Some (PInt n)" "p ''bootloader_size'' = Some (PInt b)"
    "p ''max_image_size'' = Some (PInt m)" "p ''metadata_label_address'' = Some (PInt a)"
    "p ''pointer_size'' = Some (PInt ps)" "p ''size_t_size'' = Some (PInt st)"
    "p ''hmac_key_size'' = Some (PInt hk)" "p ''hmac_signature_size'' = Some (PInt hs)"
    unfolding numeric_fields_def by auto
  show ?thesis
    using nb f
    by (simp add: build_config_def generate_image_begin_addresses_def lookup_def
          begin_addresses_loop_ints generate_size_of_metadata_def fill_image_sizes
          generate_global_metadata_sizes_def fill_global_sizes generate_offsets_def
          get_offset_of_def)
qed

text \<open>
  C8 (as amended). \<open>build_config\<close> fails whenever a required field is absent, with
  \<open>KeyError\<close> when the numeric fields that are present hold integers, and returns a
  configuration when all ten fields are present and the eight numeric ones hold integers.
\<close>

theorem build_config_failure_cases:
  "(\<not> fields_present p \<longrightarrow> (\<exists>e. build_config p = Inl e))
   \<and> (\<not> fields_present p \<and> numeric_fields_int p \<longrightarrow> build_config p = Inl KeyError)
   \<and> (fields_present p \<and> numeric_fields_int p \<longrightarrow> (\<exists>c. build_config p = Inr c))"
proof (intro conjI impI)
  assume "\<not> fields_present p"
  then show "\<exists>e. build_config p = Inl e"
    using build_Inr_present by (cases "build_config p") auto
next
  assume a: "\<not> fields_present p \<and> numeric_fields_int p"
  then obtain e where e: "build_config p = Inl e"
    using build_Inr_present by (cases "build_config p") auto
  from a key_only_build have "key_only (build_config p)" by blast
  with e show "build_config p = Inl KeyError" by simp
next
  assume "fields_present p \<and> numeric_fields_int p"
  then show "\<exists>c. build_config p = Inr c" using build_total by blast
qed

lemma ex_present: "fields_present example_platform"
  by (simp add: fields_present_def required_fields_def example_platform_def)
lemma ex_int: "numeric_fields_int example_platform"
  by (simp add: numeric_fields_int_def numeric_fields_def example_platform_def)
lemma nop_absent: "\<not> fields_present no_pointer_platform"
  by (simp add: fields_present_def required_fields_def example_platform_def no_pointer_platform_def)
lemma nop_int: "numeric_fields_int no_pointer_platform"
  by (simp add: numeric_fields_int_def numeric_fields_def example_platform_def no_pointer_platform_def)

theorem build_config_failure_cases_witness:
  "\<not> fields_present no_pointer_platform \<and> numeric_fields_int no_pointer_platform
   \<and> build_config no_pointer_platform = Inl KeyError
   \<and> fields_present example_platform \<and> numeric_fields_int example_platform
   \<and> (\<exists>c. build_config example_platform = Inr c)"
  using build_config_failure_cases [of no_pointer_platform]
    build_config_failure_cases [of example_platform]
    ex_present ex_int nop_absent nop_int
  by blast

text \<open>
  With every required field present but \<open>pointer_size\<close> a string, summing the widths
  raises \<open>TypeError\<close>: presence alone does not make the calculator total.
\<close>

theorem build_config_string_field_counterexample:
  "fields_present string_pointer_platform
   \<and> build_config string_pointer_platform = Inl TypeError"
  by (simp add: fields_present_def required_fields_def string_pointer_platform_def
        example_platform_def build_config_def generate_image_begin_addresses_def lookup_def
        upt_rec generate_size_of_metadata_def IMAGE_METADATA_SIZES_TEMPLATE_def)

section \<open>The metadata extractor\<close>

text \<open>
  C6. For an image file and a key file that exist, \<open>extract_image_metadata\<close> appends a
  record whose \<open>crc\<close> is the library's CRC-32C of the whole image content, whose
  \<open>length\<close> is the size of the image file, whose \<open>hmac_signature\<close> is the whole
  digest the library returns for the key file's content and the image content (32 bytes,
  as SHA-256 digests are), and whose \<open>completion_status\<close> is 1.
\<close>

theorem extract_image_metadata_fields:
  assumes "fs image_file = Some image_data"
      and "fs key_file = Some key"
      and "\<And>k m. length (hmac_sha256 k m) = 32"
  shows "\<exists>r s. extract_image_metadata crc32c hmac_sha256 fs gm image_file key_file
             = Inr (gm\<lparr>hmac_key_file := Some key_file, images := images gm @ [r]\<rparr>)
           \<and> crc r = uint (crc32c image_data)
           \<and> length' r = int (length image_data)
           \<and> hmac_signature r = Some s
           \<and> s = hmac_sha256 key image_data
           \<and> length s = 32
           \<and> completion_status r = 1"
proof -
  let ?r = "\<lparr>crc = uint (crc32c image_data), completion_status = 1,
              hmac_signature = Some (hmac_sha256 key image_data),
              length' = int (length image_data), file_name = image_file\<rparr>"
  have "extract_image_metadata crc32c hmac_sha256 fs gm image_file key_file
             = Inr (gm\<lparr>hmac_key_file := Some key_file, images := images gm @ [?r]\<rparr>)"
    using assms(1,2)
    by (simp add: extract_image_metadata_def calculate_crc32c_def get_length_def
        calculate_hmac_signature_def read_file_def ImageMetadata_init_def Let_def)
  with assms(3) show ?thesis
    by (intro exI [of _ ?r] exI [of _ "hmac_sha256 key image_data"]) simp
qed

theorem extract_image_metadata_fields_witness:
  "[''app.bin'' \<mapsto> [1, 2, 3], ''key'' \<mapsto> [9 :: byte]] ''app.bin'' = Some [1, 2, 3]
   \<and> [''app.bin'' \<mapsto> [1, 2, 3], ''key'' \<mapsto> [9 :: byte]] ''key'' = Some [9]
   \<and> (\<exists>r s. extract_image_metadata zero_crc zero_digest
               [''app.bin'' \<mapsto> [1, 2, 3], ''key'' \<mapsto> [9]]
               GlobalImageMetadata_init ''app.bin'' ''key''
             = Inr (GlobalImageMetadata_init\<lparr>hmac_key_file := Some ''key'',
                      images := images GlobalImageMetadata_init @ [r]\<rparr>)
           \<and> crc r = uint (zero_crc [1, 2, 3])
           \<and> length' r = 3
           \<and> hmac_signature r = Some s
           \<and> s = zero_digest [9] [1, 2, 3]
           \<and> length s = 32
           \<and> completion_status r = 1)"
proof -
  let ?fs = "[''app.bin'' \<mapsto> [1, 2, 3], ''key'' \<mapsto> [9 :: byte]]"
  have h1: "?fs ''app.bin'' = Some [1, 2, 3]" and h2: "?fs ''key'' = Some [9]"
    by simp_all
  have h3: "\<And>k m. length (zero_digest k m) = 32" by (simp add: zero_digest_def)
  from extract_image_metadata_fields
         [of ?fs "''app.bin''" "[1, 2, 3]" "''key''" "[9]" zero_digest zero_crc
            GlobalImageMetadata_init, OF h1 h2 h3] h1 h2
  show ?thesis by simp
qed

section \<open>The binary composer\<close>

subsection \<open>Integer fields are range checked\<close>

lemma to_bytes_Inr:
  "to_bytes v n bo = Inr data \<Longrightarrow> 0 \<le> v \<and> v < 256 ^ n \<and> length data = n"
  by (cases "(v, n, bo)" rule: to_bytes.cases) (auto simp: little_endian_def split: if_splits)

lemma to_bytes_out_of_range:
  "v < 0 \<or> 256 ^ n \<le> v \<Longrightarrow> \<exists>e. to_bytes v n bo = Inl e"
  by (cases "(v, n, bo)" rule: to_bytes.cases) auto

lemma write_field_Done:
  "write_field lim out offset bytes fs = Done fs' \<Longrightarrow>
     \<exists>content pos data. fs out = Some content \<and> bytes = Inr data
        \<and> fs' = fs(out \<mapsto> write_at content pos data)"
  by (auto simp: write_field_def file_write_def split: sum.splits option.splits if_splits)

lemma write_field_Inl:
  "bytes = Inl e \<Longrightarrow> \<exists>e'. write_field lim out offset bytes fs = Failed e' fs"
  by (auto simp: write_field_def split: sum.splits option.splits)

lemma encode_Inr:
  "and_then (lookup cfg ''byteorder'') (to_bytes v n) = Inr data \<Longrightarrow>
     0 \<le> v \<and> v < 256 ^ n \<and> length data = n"
  by (auto simp: and_then_Inr_iff dest: to_bytes_Inr)

lemma encode_out_of_range:
  "v < 0 \<or> 256 ^ n \<le> v \<Longrightarrow> \<exists>e. and_then (lookup cfg ''byteorder'') (to_bytes v n) = Inl e"
  using to_bytes_out_of_range [of v n] by (cases "lookup cfg ''byteorder''") auto

lemma write_int_Done:
  assumes "write_field lim out offset (and_then (lookup cfg ''byteorder'') (to_bytes v n)) fs
             = Done fs'"
  shows "0 \<le> v \<and> v < 256 ^ n \<and>
      (\<exists>content pos data. fs out = Some content \<and> length data = n
          \<and> fs' = fs(out \<mapsto> write_at content pos data))"
proof -
  from write_field_Done [OF assms] obtain content pos data
    where d: "fs out = Some content"
      "and_then (lookup cfg ''byteorder'') (to_bytes v n) = Inr data"
      "fs' = fs(out \<mapsto> write_at content pos data)" by blast
  from encode_Inr [OF d(2)] d(1,3) show ?thesis by blast
qed

lemma write_int_out_of_range:
  assumes "v < 0 \<or> 256 ^ n \<le> v"
  shows "\<exists>e. write_field lim out offset (and_then (lookup cfg ''byteorder'') (to_bytes v n)) fs
           = Failed e fs"
proof -
  from encode_out_of_range [OF assms] obtain e
    where "and_then (lookup cfg ''byteorder'') (to_bytes v n) = Inl e" by blast
  from write_field_Inl [OF this] show ?thesis .
qed

text \<open>
  C10. \<open>write_crc\<close> and \<open>write_length\<close> succeed only for \<open>0 \<le> v < 2^32\<close> and
  then replace exactly 4 bytes, \<open>write_completion_status\<close> only for
  \<open>0 \<le> v < 2^16\<close> and then replaces exactly 2 bytes; for a value outside the range
  each of them raises and leaves the file store as it was.
\<close>

theorem integer_writes_checked:
  "(write_crc lim out v i cfg fs = Done fs' \<longrightarrow>
      0 \<le> v \<and> v < 2 ^ 32 \<and>
      (\<exists>content pos data. fs out = Some content \<and> length data = 4
          \<and> fs' = fs(out \<mapsto> write_at content pos data)))
   \<and> (write_length lim out v i cfg fs = Done fs' \<longrightarrow>
      0 \<le> v \<and> v < 2 ^ 32 \<and>
      (\<exists>content pos data. fs out = Some content \<and> length data = 4
          \<and> fs' = fs(out \<mapsto> write_at content pos data)))
   \<and> (write_completion_status lim out v i cfg fs = Done fs' \<longrightarrow>
      0 \<le> v \<and> v < 2 ^ 16 \<and>
      (\<exists>content pos data. fs out = Some content \<and> length data = 2
          \<and> fs' = fs(out \<mapsto> write_at content pos data)))
   \<and> (\<not> (0 \<le> v \<and> v < 2 ^ 32) \<longrightarrow>
        (\<exists>e. write_crc lim out v i cfg fs = Failed e fs)
      \<and> (\<exists>e. write_length lim out v i cfg fs = Failed e fs))
   \<and> (\<not> (0 \<le> v \<and> v < 2 ^ 16) \<longrightarrow>
        (\<exists>e. write_completion_status lim out v i cfg fs = Failed e fs))"
proof -
  have c: "write_crc lim out v i cfg fs = Done fs' \<longrightarrow>
      0 \<le> v \<and> v < 2 ^ 32 \<and>
      (\<exists>content pos data. fs out = Some content \<and> length data = 4
          \<and> fs' = fs(out \<mapsto> write_at content pos data))"
    using write_int_Done [where lim=lim and out=out and cfg=cfg and v=v and n=4 and fs=fs
        and fs'=fs'] by (simp add: write_crc_def)
  have l: "write_length lim out v i cfg fs = Done fs' \<longrightarrow>
      0 \<le> v \<and> v < 2 ^ 32 \<and>
      (\<exists>content pos data. fs out = Some content \<and> length data = 4
          \<and> fs' = fs(out \<mapsto> write_at content pos data))"
    using write_int_Done [where lim=lim and out=out and cfg=cfg and v=v and n=4 and fs=fs
        and fs'=fs'] by (simp add: write_length_def)
  have s: "write_completion_status lim out v i cfg fs = Done fs' \<longrightarrow>
      0 \<le> v \<and> v < 2 ^ 16 \<and>
      (\<exists>content pos data. fs out = Some content \<and> length data = 2
          \<and> fs' = fs(out \<mapsto> write_at content pos data))"
    using write_int_Done [where lim=lim and out=out and cfg=cfg and v=v and n=2 and fs=fs
        and fs'=fs'] by (simp add: write_completion_status_def)
  have f4: "\<not> (0 \<le> v \<and> v < 2 ^ 32) \<longrightarrow>
        (\<exists>e. write_crc lim out v i cfg fs = Failed e fs)
      \<and> (\<exists>e. write_length lim out v i cfg fs = Failed e fs)"
    using write_int_out_of_range [where v=v and n=4 and lim=lim and out=out and cfg=cfg and fs=fs]
    by (simp add: write_crc_def write_length_def not_le not_less) 
  have f2: "\<not> (0 \<le> v \<and> v < 2 ^ 16) \<longrightarrow>
        (\<exists>e. write_completion_status lim out v i cfg fs = Failed e fs)"
    using write_int_out_of_range [where v=v and n=2 and lim=lim and out=out and cfg=cfg and fs=fs]
    by (simp add: write_completion_status_def not_le not_less)
  from c l s f4 f2 show ?thesis by (intro conjI)
qed

lemma example_write_crc:
  "write_crc example_limit ''out'' 0x01020304 0 example_config [''out'' \<mapsto> []]
     = Done [''out'' \<mapsto> replicate 112 0 @ [4, 3, 2, 1]]"
  by (simp add: write_crc_def write_field_def file_write_def example_limit_def field_offset_def
        lookup_def example_config_def write_at_def little_endian_def upt_rec)

lemma example_write_crc_too_big:
  "write_crc example_limit ''out'' (2 ^ 32) 0 example_config [''out'' \<mapsto> []]
     = Failed OverflowError [''out'' \<mapsto> []]"
  by (simp add: write_crc_def write_field_def example_limit_def field_offset_def lookup_def
        example_config_def)

theorem integer_writes_checked_witness:
  "write_crc example_limit ''out'' 0x01020304 0 example_config [''out'' \<mapsto> []]
     = Done [''out'' \<mapsto> replicate 112 0 @ [4, 3, 2, 1]]
   \<and> (0 :: int) \<le> 0x01020304 \<and> (0x01020304 :: int) < 2 ^ 32
   \<and> (\<exists>content pos data. [''out'' \<mapsto> []] ''out'' = Some content \<and> length data = 4
          \<and> [''out'' \<mapsto> replicate 112 0 @ [4, 3, 2, 1]]
              = [''out'' \<mapsto> []](''out'' \<mapsto> write_at content pos data))
   \<and> (\<exists>e. write_crc example_limit ''out'' (2 ^ 32) 0 example_config [''out'' \<mapsto> []]
            = Failed e [''out'' \<mapsto> []])"
proof -
  let ?fs = "[''out'' \<mapsto> ([] :: byte list)]"
  let ?fs' = "[''out'' \<mapsto> replicate 112 0 @ [4, 3, 2, 1 :: byte]]"
  note ok = integer_writes_checked [where lim=example_limit and out="''out''" and v="0x01020304"
      and i=0 and cfg=example_config and fs="?fs" and fs'="?fs'"]
  note bad = integer_writes_checked [where lim=example_limit and out="''out''" and v="2 ^ 32"
      and i=0 and cfg=example_config and fs="?fs" and fs'="?fs'"]
  from ok example_write_crc
  have 1: "(\<exists>content pos data. ?fs ''out'' = Some content \<and> length data = 4
          \<and> ?fs' = ?fs(''out'' \<mapsto> write_at content pos data))"
    by blast
  have "\<not> ((0 :: int) \<le> 2 ^ 32 \<and> (2 :: int) ^ 32 < 2 ^ 32)" by simp
  with bad have 2: "\<exists>e. write_crc example_limit ''out'' (2 ^ 32) 0 example_config ?fs = Failed e ?fs"
    by blast
  from 1 2 example_write_crc show ?thesis by simp
qed

subsection \<open>Size limits of the bootloader and the slots\<close>

lemma dd_copy_frame: "writes_only_target dd_copy"
  by (auto simp: writes_only_target_def dd_copy_def split: option.splits pyval.splits)

lemma create_exact:
  assumes "config ''bootloader_size'' = Some (Scalar (PInt b))"
      and "fs bootloader = Some data" and "int (length data) \<le> b"
  shows "create_output_binary dd bootloader out config fs = Done (dd bootloader out (PInt 0) fs)"
  using assms by (simp add: create_output_binary_def get_length_def lookup_def)

lemma create_too_big:
  assumes "config ''bootloader_size'' = Some (Scalar (PInt b))"
      and "fs bootloader = Some data" and "b < int (length data)"
  shows "create_output_binary dd bootloader out config fs = Failed SizeExceeded fs"
  using assms by (simp add: create_output_binary_def get_length_def lookup_def)

lemma append_loop_ok:
  assumes "writes_only_target dd"
      and "config ''max_image_size'' = Some (Scalar (PInt m))"
      and "config ''image_begin_addresses'' = Some (Seq addrs)"
      and "out \<notin> set imgs"
      and "index + length imgs \<le> length addrs"
      and "\<forall>f\<in>set imgs. \<exists>d. fs f = Some d \<and> int (length d) \<le> m"
  shows "\<exists>fs'. append_images_loop dd out config index imgs fs = Done fs'
           \<and> (\<forall>f. f \<noteq> out \<longrightarrow> fs' f = fs f)"
  using assms(4-6)
proof (induction imgs arbitrary: index fs)
  case Nil
  then show ?case by simp
next
  case (Cons image_file rest)
  from Cons.prems obtain d where d: "fs image_file = Some d" "int (length d) \<le> m" by auto
  let ?fs2 = "dd image_file out (addrs ! index) fs"
  have frame: "\<forall>f. f \<noteq> out \<longrightarrow> ?fs2 f = fs f"
    using assms(1) by (simp add: writes_only_target_def)
  have step: "append_images_loop dd out config index (image_file # rest) fs
          = append_images_loop dd out config (Suc index) rest ?fs2"
    using d assms(2,3) Cons.prems(2) by (simp add: get_length_def lookup_def)
  have "\<forall>f\<in>set rest. \<exists>d. ?fs2 f = Some d \<and> int (length d) \<le> m"
    using Cons.prems frame by (metis list.set_intros(2))
  moreover have "out \<notin> set rest" "Suc index + length rest \<le> length addrs"
    using Cons.prems by auto
  ultimately obtain fs' where "append_images_loop dd out config (Suc index) rest ?fs2 = Done fs'"
    "\<forall>f. f \<noteq> out \<longrightarrow> fs' f = ?fs2 f"
    using Cons.IH by blast
  with step frame show ?case by auto
qed

lemma append_loop_too_big:
  assumes "writes_only_target dd"
      and "config ''max_image_size'' = Some (Scalar (PInt m))"
      and "config ''image_begin_addresses'' = Some (Seq addrs)"
      and "out \<notin> set imgs"
      and "k < length imgs"
      and "index + k \<le> length addrs"
      and "\<forall>j<k. \<exists>d. fs (imgs ! j) = Some d \<and> int (length d) \<le> m"
      and "fs (imgs ! k) = Some big" and "int (length big) = m + 1"
  shows "\<exists>fs'. append_images_loop dd out config index imgs fs = Failed SizeExceeded fs'"
  using assms(4-9)
proof (induction imgs arbitrary: index k fs)
  case Nil
  then show ?case by simp
next
  case (Cons image_file rest)
  show ?case
  proof (cases k)
    case 0
    with Cons.prems assms(2) show ?thesis
      by (simp add: get_length_def lookup_def)
  next
    case (Suc k')
    from Cons.prems(4) Suc obtain d where d: "fs image_file = Some d" "int (length d) \<le> m"
      by fastforce
    let ?fs2 = "dd image_file out (addrs ! index) fs"
    have frame: "\<forall>f. f \<noteq> out \<longrightarrow> ?fs2 f = fs f"
      using assms(1) by (simp add: writes_only_target_def)
    have step: "append_images_loop dd out config index (image_file # rest) fs
          = append_images_loop dd out config (Suc index) rest ?fs2"
      using d assms(2,3) Cons.prems(3) Suc by (simp add: get_length_def lookup_def)
    have notout: "out \<notin> set rest" using Cons.prems by simp
    have k': "k' < length rest" "Suc index + k' \<le> length addrs"
      using Cons.prems Suc by auto
    have "\<forall>j<k'. \<exists>d. ?fs2 (rest ! j) = Some d \<and> int (length d) \<le> m"
    proof (intro allI impI)
      fix j assume j: "j < k'"
      with k' have "rest ! j \<in> set rest" by simp
      with notout have "rest ! j \<noteq> out" by auto
      moreover from Cons.prems(4) Suc j have "\<exists>d. fs ((image_file # rest) ! Suc j) = Some d \<and> int (length d) \<le> m"
        by (metis Suc_less_eq)
      ultimately show "\<exists>d. ?fs2 (rest ! j) = Some d \<and> int (length d) \<le> m"
        using frame by simp
    qed
    moreover have "?fs2 (rest ! k') = Some big"
    proof -
      from k' have "rest ! k' \<in> set rest" by simp
      with notout have "rest ! k' \<noteq> out" by auto
      with frame Cons.prems(5) Suc show ?thesis by simp
    qed
    ultimately obtain fs' where
      "append_images_loop dd out config (Suc index) rest ?fs2 = Failed SizeExceeded fs'"
      using Cons.IH [OF notout k'(1) k'(2) _ _ Cons.prems(6)] by blast
    with step show ?thesis by auto
  qed
qed

lemma extract_all_ok:
  assumes "fs key_file \<noteq> None" and "\<forall>f\<in>set imgs. fs f \<noteq> None"
  shows "\<exists>gm'. extract_all crc32c hmac_sha256 fs gm imgs key_file = Inr gm'"
  using assms(2)
proof (induction imgs arbitrary: gm)
  case Nil
  then show ?case by simp
next
  case (Cons f rest)
  with assms(1) obtain gm1 where
    "extract_image_metadata crc32c hmac_sha256 fs gm f key_file = Inr gm1"
    by (auto simp: extract_image_metadata_def calculate_crc32c_def get_length_def
          calculate_hmac_signature_def read_file_def Let_def)
  with Cons show ?case by simp
qed

text \<open>
  C5. A bootloader of exactly \<open>bootloader_size\<close> bytes is placed, one of
  \<open>bootloader_size + 1\<close> bytes raises the size exception and the whole run fails with it,
  the store untouched.  Images that fit their slots (\<open>max_image_size\<close> bytes or fewer,
  one slot address each) are placed; the first image of \<open>max_image_size + 1\<close> bytes
  raises the size exception, in whatever slot it is, and the whole run fails with it.
\<close>

theorem size_limits:
  assumes frame: "writes_only_target dd"
      and b: "config ''bootloader_size'' = Some (Scalar (PInt b))"
      and m: "config ''max_image_size'' = Some (Scalar (PInt m))"
      and addrs: "config ''image_begin_addresses'' = Some (Seq addrs)"
  shows "(fs bootloader = Some data \<and> int (length data) = b \<longrightarrow>
            (\<exists>fs'. create_output_binary dd bootloader out config fs = Done fs'))
       \<and> (fs bootloader = Some data \<and> int (length data) = b + 1 \<longrightarrow>
            create_output_binary dd bootloader out config fs = Failed SizeExceeded fs)
       \<and> (fs bootloader = Some data \<and> int (length data) = b + 1
            \<and> fs key_file \<noteq> None \<and> (\<forall>f\<in>set imgs. fs f \<noteq> None) \<longrightarrow>
            main lim crc32c hmac dd config imgs bootloader key_file out fs
              = Failed SizeExceeded fs)
       \<and> (out \<notin> set imgs \<and> length imgs \<le> length addrs
            \<and> (\<forall>f\<in>set imgs. \<exists>d. fs f = Some d \<and> int (length d) \<le> m) \<longrightarrow>
            (\<exists>fs'. append_images_to_binary dd imgs out config fs = Done fs'))
       \<and> (out \<notin> set imgs \<and> k < length imgs \<and> k \<le> length addrs
            \<and> (\<forall>j<k. \<exists>d. fs (imgs ! j) = Some d \<and> int (length d) \<le> m)
            \<and> fs (imgs ! k) = Some big \<and> int (length big) = m + 1 \<longrightarrow>
            (\<exists>fs'. append_images_to_binary dd imgs out config fs = Failed SizeExceeded fs'))
       \<and> (out \<notin> set imgs \<and> k < length imgs \<and> k \<le> length addrs
            \<and> (\<forall>j<k. \<exists>d. fs (imgs ! j) = Some d \<and> int (length d) \<le> m)
            \<and> fs (imgs ! k) = Some big \<and> int (length big) = m + 1
            \<and> fs key_file \<noteq> None \<and> (\<forall>f\<in>set imgs. fs f \<noteq> None)
            \<and> fs bootloader = Some data \<and> int (length data) \<le> b \<longrightarrow>
            (\<exists>fs'. main lim crc32c hmac dd config imgs bootloader key_file out fs
                     = Failed SizeExceeded fs'))"
proof -
  have a1: "fs bootloader = Some data \<and> int (length data) = b \<longrightarrow>
            (\<exists>fs'. create_output_binary dd bootloader out config fs = Done fs')"
    using create_exact [where config=config and b=b and fs=fs and bootloader=bootloader and data=data and dd=dd and out=out] b by auto
  have a2: "fs bootloader = Some data \<and> int (length data) = b + 1 \<longrightarrow>
            create_output_binary dd bootloader out config fs = Failed SizeExceeded fs"
    using create_too_big [where config=config and b=b and fs=fs and bootloader=bootloader and data=data and dd=dd and out=out] b by auto
  have a3: "fs bootloader = Some data \<and> int (length data) = b + 1
            \<and> fs key_file \<noteq> None \<and> (\<forall>f\<in>set imgs. fs f \<noteq> None) \<longrightarrow>
            main lim crc32c hmac dd config imgs bootloader key_file out fs
              = Failed SizeExceeded fs"
  proof
    assume h: "fs bootloader = Some data \<and> int (length data) = b + 1
            \<and> fs key_file \<noteq> None \<and> (\<forall>f\<in>set imgs. fs f \<noteq> None)"
    then obtain gm where
      "extract_all crc32c hmac fs GlobalImageMetadata_init imgs key_file = Inr gm"
      using extract_all_ok by blast
    moreover from h a2
    have "create_output_binary dd bootloader out config fs = Failed SizeExceeded fs" by blast
    ultimately show "main lim crc32c hmac dd config imgs bootloader key_file out fs
              = Failed SizeExceeded fs"
      by (simp add: main_def)
  qed
  have a4: "out \<notin> set imgs \<and> length imgs \<le> length addrs
            \<and> (\<forall>f\<in>set imgs. \<exists>d. fs f = Some d \<and> int (length d) \<le> m) \<longrightarrow>
            (\<exists>fs'. append_images_to_binary dd imgs out config fs = Done fs')"
    using append_loop_ok [where dd=dd and config=config and m=m and addrs=addrs and out=out
            and imgs=imgs and index=0 and fs=fs] frame m addrs
    by (auto simp: append_images_to_binary_def)
  have a5: "out \<notin> set imgs \<and> k < length imgs \<and> k \<le> length addrs
            \<and> (\<forall>j<k. \<exists>d. fs (imgs ! j) = Some d \<and> int (length d) \<le> m)
            \<and> fs (imgs ! k) = Some big \<and> int (length big) = m + 1 \<longrightarrow>
            (\<exists>fs'. append_images_to_binary dd imgs out config fs = Failed SizeExceeded fs')"
    using append_loop_too_big [where dd=dd and config=config and m=m and addrs=addrs
            and out=out and imgs=imgs and k=k and index=0 and fs=fs and big=big] frame m addrs
    by (auto simp: append_images_to_binary_def)
  have a6: "out \<notin> set imgs \<and> k < length imgs \<and> k \<le> length addrs
            \<and> (\<forall>j<k. \<exists>d. fs (imgs ! j) = Some d \<and> int (length d) \<le> m)
            \<and> fs (imgs ! k) = Some big \<and> int (length big) = m + 1
            \<and> fs key_file \<noteq> None \<and> (\<forall>f\<in>set imgs. fs f \<noteq> None)
            \<and> fs bootloader = Some data \<and> int (length data) \<le> b \<longrightarrow>
            (\<exists>fs'. main lim crc32c hmac dd config imgs bootloader key_file out fs
                     = Failed SizeExceeded fs')"
  proof
    assume h: "out \<notin> set imgs \<and> k < length imgs \<and> k \<le> length addrs
            \<and> (\<forall>j<k. \<exists>d. fs (imgs ! j) = Some d \<and> int (length d) \<le> m)
            \<and> fs (imgs ! k) = Some big \<and> int (length big) = m + 1
            \<and> fs key_file \<noteq> None \<and> (\<forall>f\<in>set imgs. fs f \<noteq> None)
            \<and> fs bootloader = Some data \<and> int (length data) \<le> b"
    then obtain gm where
      ex: "extract_all crc32c hmac fs GlobalImageMetadata_init imgs key_file = Inr gm"
      using extract_all_ok by blast
    let ?fs1 = "dd bootloader out (PInt 0) fs"
    from h have cr: "create_output_binary dd bootloader out config fs = Done ?fs1"
      using create_exact [where config=config and b=b and fs=fs and bootloader=bootloader and data=data and dd=dd and out=out] b by blast
    have same: "\<And>j. j < length imgs \<Longrightarrow> ?fs1 (imgs ! j) = fs (imgs ! j)"
    proof -
      fix j assume "j < length imgs"
      then have "imgs ! j \<in> set imgs" by simp
      with h have "imgs ! j \<noteq> out" by auto
      with frame show "?fs1 (imgs ! j) = fs (imgs ! j)"
        by (simp add: writes_only_target_def)
    qed
    from h same have "\<forall>j<k. \<exists>d. ?fs1 (imgs ! j) = Some d \<and> int (length d) \<le> m"
      by (metis (no_types, lifting) less_trans)
    moreover from h same have "?fs1 (imgs ! k) = Some big" by simp
    ultimately obtain fs' where
      "append_images_loop dd out config 0 imgs ?fs1 = Failed SizeExceeded fs'"
      using append_loop_too_big [where dd=dd and config=config and m=m and addrs=addrs
              and out=out and imgs=imgs and k=k and index=0 and fs="?fs1" and big=big]
        frame m addrs h by auto
    with ex cr show "\<exists>fs'. main lim crc32c hmac dd config imgs bootloader key_file out fs
                     = Failed SizeExceeded fs'"
      by (simp add: main_def append_images_to_binary_def)
  qed
  from a1 a2 a3 a4 a5 a6 show ?thesis by (intro conjI)
qed

theorem size_limits_witness:
  "(\<exists>fs'. create_output_binary dd_copy ''boot.bin'' ''out.bin'' example_config example_files
            = Done fs')
   \<and> create_output_binary dd_copy ''big_boot.bin'' ''out.bin'' example_config example_files
        = Failed SizeExceeded example_files
   \<and> main example_limit zero_crc zero_digest dd_copy example_config [''app.bin''] ''big_boot.bin'' ''key''
        ''out.bin'' example_files
        = Failed SizeExceeded example_files
   \<and> (\<exists>fs'. append_images_to_binary dd_copy [''app.bin'', ''app.bin''] ''out.bin''
              example_config example_files = Done fs')
   \<and> (\<exists>fs'. append_images_to_binary dd_copy [''app.bin'', ''big_app.bin''] ''out.bin''
              example_config example_files = Failed SizeExceeded fs')
   \<and> (\<exists>fs'. main example_limit zero_crc zero_digest dd_copy example_config [''app.bin'', ''big_app.bin'']
              ''boot.bin'' ''key'' ''out.bin'' example_files = Failed SizeExceeded fs')"
proof -
  have cb: "example_config ''bootloader_size'' = Some (Scalar (PInt 8))"
    and cm: "example_config ''max_image_size'' = Some (Scalar (PInt 8))"
    and ca: "example_config ''image_begin_addresses'' = Some (Seq [PInt 8, PInt 16])"
    by (simp_all add: example_config_def)
  note ok = size_limits [where dd=dd_copy and config=example_config and b=8 and m=8
      and addrs="[PInt 8, PInt 16]" and fs=example_files and out="''out.bin''"
      and bootloader="''boot.bin''" and data="replicate 8 1"
      and imgs="[''app.bin'', ''app.bin'']", OF dd_copy_frame cb cm ca]
  note big_boot = size_limits [where dd=dd_copy and config=example_config and b=8 and m=8
      and addrs="[PInt 8, PInt 16]" and fs=example_files and out="''out.bin''"
      and bootloader="''big_boot.bin''" and data="replicate 9 1"
      and imgs="[''app.bin'']" and key_file="''key''" and crc32c=zero_crc
      and hmac=zero_digest, OF dd_copy_frame cb cm ca]
  note big_app = size_limits [where dd=dd_copy and config=example_config and b=8 and m=8
      and addrs="[PInt 8, PInt 16]" and fs=example_files and out="''out.bin''"
      and bootloader="''boot.bin''" and data="replicate 8 1"
      and imgs="[''app.bin'', ''big_app.bin'']" and k=1 and big="replicate 9 2"
      and key_file="''key''" and crc32c=zero_crc
      and hmac=zero_digest, OF dd_copy_frame cb cm ca]
  have 1: "\<exists>fs'. create_output_binary dd_copy ''boot.bin'' ''out.bin'' example_config example_files
            = Done fs'"
    using ok [THEN conjunct1] by (simp add: example_files_def)
  have 2: "create_output_binary dd_copy ''big_boot.bin'' ''out.bin'' example_config example_files
        = Failed SizeExceeded example_files"
    using big_boot [THEN conjunct2, THEN conjunct1] by (simp add: example_files_def)
  have 3: "main example_limit zero_crc zero_digest dd_copy example_config [''app.bin''] ''big_boot.bin'' ''key''
        ''out.bin'' example_files
        = Failed SizeExceeded example_files"
    using big_boot [THEN conjunct2, THEN conjunct2, THEN conjunct1]
    by (simp add: example_files_def)
  have 4: "\<exists>fs'. append_images_to_binary dd_copy [''app.bin'', ''app.bin''] ''out.bin''
              example_config example_files = Done fs'"
    using ok [THEN conjunct2, THEN conjunct2, THEN conjunct2, THEN conjunct1]
    by (simp add: example_files_def)
  have 5: "\<exists>fs'. append_images_to_binary dd_copy [''app.bin'', ''big_app.bin''] ''out.bin''
              example_config example_files = Failed SizeExceeded fs'"
    using big_app [THEN conjunct2, THEN conjunct2, THEN conjunct2, THEN conjunct2, THEN conjunct1]
    by (simp add: example_files_def)
  have 6: "\<exists>fs'. main example_limit zero_crc zero_digest dd_copy example_config [''app.bin'', ''big_app.bin'']
              ''boot.bin'' ''key'' ''out.bin'' example_files = Failed SizeExceeded fs'"
    using big_app [THEN conjunct2, THEN conjunct2, THEN conjunct2, THEN conjunct2, THEN conjunct2]
    by (simp add: example_files_def)
  from 1 2 3 4 5 6 show ?thesis by (intro conjI)
qed

subsection \<open>Reading the metadata back\<close>

lemma holds_written: "holds (write_at x p d) p d"
proof (cases "d = []")
  case True then show ?thesis by (simp add: holds_def)
next
  case False
  have "length (take p x @ replicate (p - length x) 0) = p" by auto
  then have "drop p ((take p x @ replicate (p - length x) 0) @ d @ drop (p + length d) x)
        = d @ drop (p + length d) x"
    by (metis append_eq_conv_conj)
  with False show ?thesis by (simp add: holds_def write_at_def)
qed

lemma holds_length: "holds x q d \<Longrightarrow> d \<noteq> [] \<Longrightarrow> q + length d \<le> length x"
proof -
  assume h: "holds x q d" and ne: "d \<noteq> []"
  from h have "length (take (length d) (drop q x)) = length d" by (simp add: holds_def)
  then have "length d \<le> length x - q" by simp
  with ne show ?thesis by (cases d) auto
qed

lemma holds_kept:
  assumes "holds x q d" and "q + length d \<le> p"
  shows "holds (write_at x p e) q d"
proof (cases "d = [] \<or> e = []")
  case True
  with assms show ?thesis by (auto simp: holds_def write_at_def)
next
  case False
  with assms holds_length have len: "q + length d \<le> length x" by blast
  with assms(2) have "take (length d) (drop q (take p x)) = take (length d) (drop q x)"
    by (simp add: drop_take)
  moreover from len assms(2) have "length d \<le> length (take p x) - q" by simp
  ultimately have "take (length d) (drop q (take p x @ replicate (p - length x) 0 @ e @ drop (p + length e) x))
       = take (length d) (drop q x)"
    by simp
  with False assms(1) show ?thesis by (simp add: holds_def write_at_def)
qed

lemma length_little_endian [simp]: "length (little_endian n v) = n"
  by (simp add: little_endian_def)

lemma length_byte_string [simp]: "length (byte_string bo n v) = n"
  by (simp add: byte_string_def)

lemma little_endian_Suc:
  "little_endian (Suc n) v = word_of_int (v mod 256) # little_endian n (v div 256)"
proof -
  have "[0..<Suc n] = 0 # map Suc [0..<n]"
    by (simp add: upt_conv_Cons map_Suc_upt del: upt_Suc)
  moreover have "\<And>k. v div 256 ^ Suc k = v div 256 div 256 ^ k"
    by (simp add: zdiv_zmult2_eq)
  ultimately show ?thesis
    by (simp add: little_endian_def comp_def del: upt_Suc power_Suc)
qed

lemma le_value_little_endian:
  "0 \<le> v \<Longrightarrow> v < 256 ^ n \<Longrightarrow> le_value (little_endian n v) = v"
proof (induction n arbitrary: v)
  case 0
  then show ?case by (simp add: little_endian_def)
next
  case (Suc n)
  from Suc.prems have "v < 256 * 256 ^ n" by simp
  with Suc.prems(1) have "0 \<le> v div 256" "v div 256 < 256 ^ n"
    by arith+
  with Suc.IH have "le_value (little_endian n (v div 256)) = v div 256" by blast
  moreover have "uint (word_of_int (v mod 256) :: byte) = v mod 256"
    by (simp add: uint_word_of_int take_bit_eq_mod)
  ultimately show ?case by (simp add: little_endian_Suc)
qed

lemma from_bytes_byte_string:
  assumes "bo = ''little'' \<or> bo = ''big''" "0 \<le> v" "v < 256 ^ n"
  shows "from_bytes bo (byte_string bo n v) = Some v"
  using assms by (auto simp: from_bytes_def byte_string_def le_value_little_endian)

lemma field_offset_nat:
  assumes "config first = Some (Scalar (PInt (int a)))"
      and "config ''size_of_metadata'' = Some (Scalar (PInt (int S)))"
  shows "field_offset config first i = Inr (Scalar (PInt (int (a + S * i))))"
  using assms by (simp add: field_offset_def lookup_def)

lemma seek_position_nat:
  assumes "p \<le> lim" and "lim < 2 ^ 63"
  shows "seek_position lim (Scalar (PInt (int p))) = Inr p"
proof -
  from assms have "p < 2 ^ 63" by simp
  then have "int p < 2 ^ 63" by (metis of_nat_less_iff of_nat_numeral of_nat_power)
  with assms(1) show ?thesis by simp
qed

lemma write_int_field:
  assumes "fs out = Some x"
      and "config ''byteorder'' = Some (Scalar (PStr bo))"
      and "bo = ''little'' \<or> bo = ''big''"
      and "0 \<le> v" and "v < 256 ^ n"
      and "p + n \<le> lim" and "lim < 2 ^ 63"
  shows "write_field lim out (Inr (Scalar (PInt (int p))))
           (and_then (lookup config ''byteorder'') (to_bytes v n)) fs
         = Done (fs(out \<mapsto> write_at x p (byte_string bo n v)))"
proof -
  from assms(6) have "p \<le> lim" by simp
  from seek_position_nat [OF this assms(7)] assms(1-6) show ?thesis
    by (auto simp: write_field_def file_write_def lookup_def byte_string_def
          little_endian_def)
qed

lemma write_signature_field:
  assumes "fs out = Some x" and "p + length sg \<le> lim" and "lim < 2 ^ 63"
  shows "write_field lim out (Inr (Scalar (PInt (int p)))) (Inr sg) fs
         = Done (fs(out \<mapsto> write_at x p sg))"
proof -
  from assms(2) have "p \<le> lim" by simp
  from seek_position_nat [OF this assms(3)] assms(1,2) show ?thesis
    by (simp add: write_field_def file_write_def)
qed

lemma fix_metadata_loop_patches:
  assumes "config ''first_crc_offset'' = Some (Scalar (PInt (int c)))"
      and "config ''first_length_offset'' = Some (Scalar (PInt (int l)))"
      and "config ''first_completion_status_offset'' = Some (Scalar (PInt (int s)))"
      and "config ''first_hmac_offset'' = Some (Scalar (PInt (int h)))"
      and "config ''size_of_metadata'' = Some (Scalar (PInt (int S)))"
      and "config ''byteorder'' = Some (Scalar (PStr bo))"
      and "bo = ''little'' \<or> bo = ''big''"
      and "lim < 2 ^ 63"
      and "fs out = Some x"
      and "\<forall>k<length rs.
             record_fits lim (c + S * (i + k)) (l + S * (i + k)) (s + S * (i + k))
               (h + S * (i + k)) (rs ! k)"
  shows "fix_metadata_loop lim out config i rs fs
           = Done (fs(out \<mapsto> patch_records bo c l s h S i rs x))"
  using assms(9,10)
proof (induction rs arbitrary: i fs x)
  case Nil
  then show ?case by (simp add: map_upd_triv)
next
  case (Cons r rest)
  from Cons.prems(2) [rule_format, of 0]
  have v: "record_fits lim (c + S * i) (l + S * i) (s + S * i) (h + S * i) r" by simp
  then obtain sg where sg: "hmac_signature r = Some sg" "h + S * i + length sg \<le> lim"
    by (auto simp: record_fits_def split: option.splits)
  from v have rng: "0 \<le> crc r" "crc r < 256 ^ 4" "0 \<le> length' r" "length' r < 256 ^ 4"
    "0 \<le> completion_status r" "completion_status r < 256 ^ 2"
    and fit: "c + S * i + 4 \<le> lim" "l + S * i + 4 \<le> lim" "s + S * i + 2 \<le> lim"
    by (simp_all add: record_fits_def)
  let ?x1 = "write_at x (c + S * i) (byte_string bo 4 (crc r))"
  let ?x2 = "write_at ?x1 (l + S * i) (byte_string bo 4 (length' r))"
  let ?x3 = "write_at ?x2 (s + S * i) (byte_string bo 2 (completion_status r))"
  let ?x4 = "write_at ?x3 (h + S * i) sg"
  have w1: "write_crc lim out (crc r) i config fs = Done (fs(out \<mapsto> ?x1))"
    unfolding write_crc_def field_offset_nat [OF assms(1) assms(5)]
    using write_int_field [where fs=fs and out=out and x=x and config=config and bo=bo
        and v="crc r" and n=4 and p="c + S * i" and lim=lim]
      Cons.prems(1) assms(6) assms(7) rng(1) rng(2) fit(1) assms(8) by simp
  have w2: "write_length lim out (length' r) i config (fs(out \<mapsto> ?x1))
              = Done (fs(out \<mapsto> ?x2))"
    unfolding write_length_def field_offset_nat [OF assms(2) assms(5)]
    using write_int_field [where fs="fs(out \<mapsto> ?x1)" and out=out and x="?x1"
        and config=config and bo=bo and v="length' r" and n=4 and p="l + S * i" and lim=lim]
      assms(6) assms(7) rng(3) rng(4) fit(2) assms(8) by simp
  have w3: "write_completion_status lim out (completion_status r) i config (fs(out \<mapsto> ?x2))
              = Done (fs(out \<mapsto> ?x3))"
    unfolding write_completion_status_def field_offset_nat [OF assms(3) assms(5)]
    using write_int_field [where fs="fs(out \<mapsto> ?x2)" and out=out and x="?x2"
        and config=config and bo=bo and v="completion_status r" and n=2 and p="s + S * i"
        and lim=lim]
      assms(6) assms(7) rng(5) rng(6) fit(3) assms(8) by simp
  have w4: "write_hmac_signature lim out (hmac_signature r) i config (fs(out \<mapsto> ?x3))
              = Done (fs(out \<mapsto> ?x4))"
    unfolding write_hmac_signature_def field_offset_nat [OF assms(4) assms(5)] sg(1)
    using write_signature_field [where fs="fs(out \<mapsto> ?x3)" and out=out and x="?x3"
        and p="h + S * i" and sg=sg and lim=lim] sg(2) assms(8) by simp
  have p: "patch_record bo (c + S * i) (l + S * i) (s + S * i) (h + S * i) r x = ?x4"
    by (simp add: patch_record_def sg(1))
  have rest: "\<forall>k<length rest.
             record_fits lim (c + S * (Suc i + k)) (l + S * (Suc i + k)) (s + S * (Suc i + k))
               (h + S * (Suc i + k)) (rest ! k)"
  proof (intro allI impI)
    fix k assume "k < length rest"
    with Cons.prems(2) [rule_format, of "Suc k"]
    show "record_fits lim (c + S * (Suc i + k)) (l + S * (Suc i + k)) (s + S * (Suc i + k))
               (h + S * (Suc i + k)) (rest ! k)"
      by simp
  qed
  have step: "fix_metadata_loop lim out config i (r # rest) fs
          = fix_metadata_loop lim out config (Suc i) rest (fs(out \<mapsto> ?x4))"
    by (simp only: fix_metadata_loop.simps w1 w2 w3 w4 then_do.simps)
  have "fix_metadata_loop lim out config (Suc i) rest (fs(out \<mapsto> ?x4))
          = Done ((fs(out \<mapsto> ?x4))(out \<mapsto> patch_records bo c l s h S (Suc i) rest ?x4))"
    by (rule Cons.IH [OF _ rest]) simp
  also have "(fs(out \<mapsto> ?x4))(out \<mapsto> patch_records bo c l s h S (Suc i) rest ?x4)
          = fs(out \<mapsto> patch_records bo c l s h S i (r # rest) x)"
    by (simp only: fun_upd_upd patch_records.simps p)
  finally show ?case unfolding step .
qed

lemma records_fit:
  assumes "c + 4 \<le> l" and "l + 4 \<le> s" and "s + 2 \<le> h"
      and "\<forall>r\<in>set rs. valid_record h (c + S) r"
      and "c + S * length rs \<le> lim"
      and "k < length rs"
  shows "record_fits lim (c + S * k) (l + S * k) (s + S * k) (h + S * k) (rs ! k)"
proof -
  from assms(4,6) have v: "valid_record h (c + S) (rs ! k)" by simp
  then obtain sg where sg: "hmac_signature (rs ! k) = Some sg" "h + length sg \<le> c + S"
    by (auto simp: valid_record_def split: option.splits)
  from assms(6) have "S * Suc k \<le> S * length rs" by (intro mult_le_mono2) simp
  with assms(5) have room: "c + S * k + S \<le> lim" by simp
  with sg(2) assms(1-3) have
    "c + S * k + 4 \<le> lim" "l + S * k + 4 \<le> lim" "s + S * k + 2 \<le> lim"
    "h + S * k + length sg \<le> lim"
    by simp_all
  with v sg(1) show ?thesis by (simp add: record_fits_def valid_record_def)
qed

lemma patch_record_keeps:
  assumes "holds x q d" and "q + length d \<le> c"
      and "c + 4 \<le> l" and "l + 4 \<le> s" and "s + 2 \<le> h"
  shows "holds (patch_record bo c l s h r x) q d"
  unfolding patch_record_def
  using assms by (intro holds_kept) simp_all

lemma patch_record_fields:
  assumes "c + 4 \<le> l" and "l + 4 \<le> s" and "s + 2 \<le> h"
  shows "holds (patch_record bo c l s h r x) c (byte_string bo 4 (crc r))"
    and "holds (patch_record bo c l s h r x) l (byte_string bo 4 (length' r))"
    and "holds (patch_record bo c l s h r x) s (byte_string bo 2 (completion_status r))"
    and "holds (patch_record bo c l s h r x) h
           (case hmac_signature r of None \<Rightarrow> [] | Some sg \<Rightarrow> sg)"
  unfolding patch_record_def
  using assms by (intro holds_kept holds_written; simp)+

lemma patch_records_keeps:
  assumes "c + 4 \<le> l" and "l + 4 \<le> s" and "s + 2 \<le> h"
      and "holds x q d" and "q + length d \<le> c + S * i"
  shows "holds (patch_records bo c l s h S i rs x) q d"
  using assms(4,5)
proof (induction rs arbitrary: i x)
  case Nil
  then show ?case by simp
next
  case (Cons r rest)
  have "holds (patch_record bo (c + S * i) (l + S * i) (s + S * i) (h + S * i) r x) q d"
    using Cons.prems assms(1-3) by (intro patch_record_keeps) simp_all
  moreover have "q + length d \<le> c + S * Suc i" using Cons.prems(2) by simp
  ultimately show ?case using Cons.IH by simp
qed

lemma patch_records_fields:
  assumes "c + 4 \<le> l" and "l + 4 \<le> s" and "s + 2 \<le> h"
      and "\<forall>r\<in>set rs. valid_record h (c + S) r"
      and "k < length rs"
  shows "holds (patch_records bo c l s h S i rs x) (c + S * (i + k))
           (byte_string bo 4 (crc (rs ! k)))
       \<and> holds (patch_records bo c l s h S i rs x) (l + S * (i + k))
           (byte_string bo 4 (length' (rs ! k)))
       \<and> holds (patch_records bo c l s h S i rs x) (s + S * (i + k))
           (byte_string bo 2 (completion_status (rs ! k)))
       \<and> (\<exists>sg. hmac_signature (rs ! k) = Some sg
             \<and> holds (patch_records bo c l s h S i rs x) (h + S * (i + k)) sg)"
  using assms(4,5)
proof (induction rs arbitrary: i x k)
  case Nil
  then show ?case by simp
next
  case (Cons r rest)
  let ?y = "patch_record bo (c + S * i) (l + S * i) (s + S * i) (h + S * i) r x"
  show ?case
  proof (cases k)
    case 0
    from Cons.prems(1) obtain sg where sg: "hmac_signature r = Some sg" "h + length sg \<le> c + S"
      by (auto simp: valid_record_def split: option.splits)
    have lay: "c + S * i + 4 \<le> l + S * i" "l + S * i + 4 \<le> s + S * i"
      "s + S * i + 2 \<le> h + S * i"
      using assms(1-3) by simp_all
    note f = patch_record_fields [OF lay, of bo r x]
    have "holds (patch_records bo c l s h S (Suc i) rest ?y) (c + S * i)
            (byte_string bo 4 (crc r))"
      using assms(1-3) sg(2)
      by (intro patch_records_keeps [OF assms(1-3)] f(1)) simp
    moreover have "holds (patch_records bo c l s h S (Suc i) rest ?y) (l + S * i)
            (byte_string bo 4 (length' r))"
      using assms(1-3) sg(2)
      by (intro patch_records_keeps [OF assms(1-3)] f(2)) simp
    moreover have "holds (patch_records bo c l s h S (Suc i) rest ?y) (s + S * i)
            (byte_string bo 2 (completion_status r))"
      using assms(1-3) sg(2)
      by (intro patch_records_keeps [OF assms(1-3)] f(3)) simp
    moreover have "holds (patch_records bo c l s h S (Suc i) rest ?y) (h + S * i) sg"
      using assms(1-3) sg(2) f(4) sg(1)
      by (intro patch_records_keeps [OF assms(1-3)]) simp_all
    ultimately show ?thesis using 0 sg(1) by simp
  next
    case (Suc k')
    from Cons.prems have "\<forall>r\<in>set rest. valid_record h (c + S) r" "k' < length rest"
      using Suc by simp_all
    from Cons.IH [OF this, of "Suc i" ?y] Suc show ?thesis by simp
  qed
qed

lemma write_hmac_key_Done:
  assumes "fs out = Some x0" and "fs kf = Some key"
      and "config ''hmac_key_offset'' = Some (Scalar (PInt (int ko)))"
      and "ko + length key \<le> lim" and "lim < 2 ^ 63"
  shows "write_hmac_key lim out (Some kf) config fs
           = Done (fs(out \<mapsto> write_at x0 ko key))"
proof -
  from assms(4) have "ko \<le> lim" by simp
  from seek_position_nat [OF this assms(5)] assms(1-4) show ?thesis
    by (simp add: write_hmac_key_def file_write_def lookup_def)
qed

lemma read_at_holds:
  "fs path = Some y \<Longrightarrow> holds y pos d \<Longrightarrow> read_at fs path pos (length d) = Some d"
  by (simp add: read_at_def holds_def)

lemma read_int_holds:
  assumes "fs path = Some y" and "holds y pos (byte_string bo n v)"
      and "bo = ''little'' \<or> bo = ''big''" and "0 \<le> v" and "v < 256 ^ n"
  shows "read_int fs path pos n bo = Some v"
proof -
  from read_at_holds [where fs=fs and path=path and y=y, OF assms(1,2)]
  have "read_at fs path pos n = Some (byte_string bo n v)" by simp
  with from_bytes_byte_string [OF assms(3-5)] show ?thesis by (simp add: read_int_def)
qed

text \<open>
  C4 (as amended). Let the offsets and the stride of the layout be non-negative integers
  with the fields of a record in the order crc, length, completion status, signature and
  not overlapping, the byte order \<open>little\<close> or \<open>big\<close>, the output file and the
  key file present, and every record hold integers that fit their fields and a signature
  that ends by the crc of the next record.  Let the key and all records end by the largest
  offset the file system supports, which is below \<open>2^63\<close>.  Then
  \<open>fix_metadata\<close> succeeds, and for
  every slot \<open>i\<close> the 4 bytes at \<open>first_crc_offset + i * size_of_metadata\<close>
  decode to the record's crc, the 4 bytes at the length offset to its length, the 2 bytes
  at the completion status offset to its completion status, all in the configured byte
  order, and the bytes at the signature offset are its signature.
\<close>

theorem metadata_roundtrip:
  assumes "config ''first_crc_offset'' = Some (Scalar (PInt (int c)))"
      and "config ''first_length_offset'' = Some (Scalar (PInt (int l)))"
      and "config ''first_completion_status_offset'' = Some (Scalar (PInt (int s)))"
      and "config ''first_hmac_offset'' = Some (Scalar (PInt (int h)))"
      and "config ''size_of_metadata'' = Some (Scalar (PInt (int S)))"
      and "config ''byteorder'' = Some (Scalar (PStr bo))"
      and "bo = ''little'' \<or> bo = ''big''"
      and "config ''hmac_key_offset'' = Some (Scalar (PInt (int ko)))"
      and "c + 4 \<le> l" and "l + 4 \<le> s" and "s + 2 \<le> h"
      and "\<forall>r\<in>set (images gm). valid_record h (c + S) r"
      and "fs out = Some x0" and "hmac_key_file gm = Some kf" and "fs kf = Some key"
      and "lim < 2 ^ 63"
      and "ko + length key \<le> lim"
      and "c + S * length (images gm) \<le> lim"
  shows "\<exists>fs'. fix_metadata lim out gm config fs = Done fs' \<and>
           (\<forall>i<length (images gm).
              read_int fs' out (c + S * i) 4 bo = Some (crc (images gm ! i))
            \<and> read_int fs' out (l + S * i) 4 bo = Some (length' (images gm ! i))
            \<and> read_int fs' out (s + S * i) 2 bo = Some (completion_status (images gm ! i))
            \<and> (\<exists>sg. hmac_signature (images gm ! i) = Some sg
                  \<and> read_at fs' out (h + S * i) (length sg) = Some sg))"
proof -
  let ?x1 = "write_at x0 ko key"
  let ?fs1 = "fs(out \<mapsto> ?x1)"
  let ?y = "patch_records bo c l s h S 0 (images gm) ?x1"
  let ?fs' = "?fs1(out \<mapsto> ?y)"
  have k: "write_hmac_key lim out (hmac_key_file gm) config fs = Done ?fs1"
    unfolding assms(14) using assms(13,15,8,17,16) by (rule write_hmac_key_Done)
  have fits: "\<forall>k<length (images gm).
             record_fits lim (c + S * (0 + k)) (l + S * (0 + k)) (s + S * (0 + k))
               (h + S * (0 + k)) (images gm ! k)"
    using records_fit [OF assms(9-12) assms(18)] by simp
  have "fix_metadata_loop lim out config 0 (images gm) ?fs1 = Done ?fs'"
    using fix_metadata_loop_patches [where config=config and c=c and l=l and s=s and h=h
        and S=S and bo=bo and rs="images gm" and fs="?fs1" and out=out
        and x="?x1" and i=0 and lim=lim]
      assms(1-7,16) fits by simp
  with k have run: "fix_metadata lim out gm config fs = Done ?fs'"
    by (simp only: fix_metadata_def then_do.simps)
  have out: "?fs' out = Some ?y" by simp
  have "\<forall>i<length (images gm).
              read_int ?fs' out (c + S * i) 4 bo = Some (crc (images gm ! i))
            \<and> read_int ?fs' out (l + S * i) 4 bo = Some (length' (images gm ! i))
            \<and> read_int ?fs' out (s + S * i) 2 bo = Some (completion_status (images gm ! i))
            \<and> (\<exists>sg. hmac_signature (images gm ! i) = Some sg
                  \<and> read_at ?fs' out (h + S * i) (length sg) = Some sg)"
  proof (intro allI impI)
    fix i assume i: "i < length (images gm)"
    let ?r = "images gm ! i"
    from i assms(12) have v: "valid_record h (c + S) ?r" by simp
    then have rng: "0 \<le> crc ?r" "crc ?r < 256 ^ 4" "0 \<le> length' ?r" "length' ?r < 256 ^ 4"
      "0 \<le> completion_status ?r" "completion_status ?r < 256 ^ 2"
      by (simp_all add: valid_record_def)
    from patch_records_fields [where bo=bo and i=0 and x="?x1" and S=S, OF assms(9-12) i]
    obtain sg where f: "holds ?y (c + S * i) (byte_string bo 4 (crc ?r))"
      "holds ?y (l + S * i) (byte_string bo 4 (length' ?r))"
      "holds ?y (s + S * i) (byte_string bo 2 (completion_status ?r))"
      "hmac_signature ?r = Some sg" "holds ?y (h + S * i) sg"
      by auto
    show "read_int ?fs' out (c + S * i) 4 bo = Some (crc (images gm ! i))
            \<and> read_int ?fs' out (l + S * i) 4 bo = Some (length' (images gm ! i))
            \<and> read_int ?fs' out (s + S * i) 2 bo = Some (completion_status (images gm ! i))
            \<and> (\<exists>sg. hmac_signature (images gm ! i) = Some sg
                  \<and> read_at ?fs' out (h + S * i) (length sg) = Some sg)"
      using read_int_holds [where fs="?fs'" and path=out and y="?y", OF out f(1) assms(7) rng(1,2)]
        read_int_holds [where fs="?fs'" and path=out and y="?y", OF out f(2) assms(7) rng(3,4)]
        read_int_holds [where fs="?fs'" and path=out and y="?y", OF out f(3) assms(7) rng(5,6)]
        read_at_holds [where fs="?fs'" and path=out and y="?y", OF out f(5)] f(4)
      by blast
  qed
  with run show ?thesis by blast
qed

lemma example_limit_bounds:
  "example_limit < 2 ^ 63" "n \<le> 2 ^ 20 \<Longrightarrow> n \<le> example_limit"
  by (simp_all add: example_limit_def)

theorem metadata_roundtrip_witness:
  "\<exists>fs'. fix_metadata example_limit ''out.bin'' two_images example_config patch_files
            = Done fs'
         \<and> read_int fs' ''out.bin'' 112 4 ''little'' = Some 1
         \<and> read_int fs' ''out.bin'' 172 4 ''little'' = Some 2
         \<and> read_int fs' ''out.bin'' 128 4 ''little'' = Some 8
         \<and> read_int fs' ''out.bin'' 132 2 ''little'' = Some 1
         \<and> read_at fs' ''out.bin'' 136 32 = Some (replicate 32 0xAA)
         \<and> read_at fs' ''out.bin'' 196 32 = Some (replicate 32 0xBB)"
proof -
  have v: "\<forall>r\<in>set (images two_images). valid_record 136 (112 + 60) r"
    by (simp add: two_images_def valid_record_def)
  have cfg: "example_config ''first_crc_offset'' = Some (Scalar (PInt (int 112)))"
    "example_config ''first_length_offset'' = Some (Scalar (PInt (int 128)))"
    "example_config ''first_completion_status_offset'' = Some (Scalar (PInt (int 132)))"
    "example_config ''first_hmac_offset'' = Some (Scalar (PInt (int 136)))"
    "example_config ''size_of_metadata'' = Some (Scalar (PInt (int 60)))"
    "example_config ''byteorder'' = Some (Scalar (PStr ''little''))"
    "example_config ''hmac_key_offset'' = Some (Scalar (PInt (int 12)))"
    by (simp_all add: example_config_def)
  have files: "patch_files ''out.bin'' = Some []" "hmac_key_file two_images = Some ''key''"
    "patch_files ''key'' = Some [7]"
    by (simp_all add: patch_files_def two_images_def)
  from metadata_roundtrip [where config=example_config and c=112 and l=128 and s=132
      and h=136 and S=60 and bo="''little''" and ko=12 and gm=two_images and fs=patch_files
      and out="''out.bin''" and ?x0.0="[]" and kf="''key''" and key="[7]"
      and lim=example_limit,
      OF cfg(1-6) _ cfg(7) _ _ _ v files example_limit_bounds(1)]
  obtain fs' where run:
      "fix_metadata example_limit ''out.bin'' two_images example_config patch_files = Done fs'"
    and rb: "\<forall>i<length (images two_images).
              read_int fs' ''out.bin'' (112 + 60 * i) 4 ''little'' = Some (crc (images two_images ! i))
            \<and> read_int fs' ''out.bin'' (128 + 60 * i) 4 ''little'' = Some (length' (images two_images ! i))
            \<and> read_int fs' ''out.bin'' (132 + 60 * i) 2 ''little''
                = Some (completion_status (images two_images ! i))
            \<and> (\<exists>sg. hmac_signature (images two_images ! i) = Some sg
                  \<and> read_at fs' ''out.bin'' (136 + 60 * i) (length sg) = Some sg)"
    by (auto simp: example_limit_bounds two_images_def)
  from rb [rule_format, of 0] rb [rule_format, of 1] run show ?thesis
    by (simp add: two_images_def)
qed

text \<open>
  Without the last condition the round trip fails.  For \<open>hmac_signature_size: 16\<close>
  the stride is 44, the 32-byte signature of slot 0 at 136 runs to 168, and the crc of
  slot 1, written later at 156, replaces four of its bytes.
\<close>

lemma short_signature_layout:
  "build_config short_signature_platform = Inr short_signature_config"
  by (simp add: short_signature_platform_def short_signature_config_def example_platform_def
        build_config_def generate_image_begin_addresses_def lookup_def upt_rec
        generate_size_of_metadata_def IMAGE_METADATA_SIZES_TEMPLATE_def
        generate_global_metadata_sizes_def GLOBAL_METADATA_SIZE_TEMPLATE_def
        generate_offsets_def get_offset_of_def)

lemma short_signature_patches:
  "fix_metadata example_limit ''out.bin'' two_images short_signature_config patch_files
     = Done (patch_files(''out.bin'' \<mapsto>
         patch_records ''little'' 112 128 132 136 44 0 (images two_images)
           (write_at [] 12 [7])))"
proof -
  have cfg: "short_signature_config ''first_crc_offset'' = Some (Scalar (PInt (int 112)))"
    "short_signature_config ''first_length_offset'' = Some (Scalar (PInt (int 128)))"
    "short_signature_config ''first_completion_status_offset'' = Some (Scalar (PInt (int 132)))"
    "short_signature_config ''first_hmac_offset'' = Some (Scalar (PInt (int 136)))"
    "short_signature_config ''size_of_metadata'' = Some (Scalar (PInt (int 44)))"
    "short_signature_config ''byteorder'' = Some (Scalar (PStr ''little''))"
    "short_signature_config ''hmac_key_offset'' = Some (Scalar (PInt (int 12)))"
    by (simp_all add: short_signature_config_def)
  let ?fs1 = "patch_files(''out.bin'' \<mapsto> write_at [] 12 [7])"
  have k: "write_hmac_key example_limit ''out.bin'' (hmac_key_file two_images)
             short_signature_config patch_files = Done ?fs1"
    using write_hmac_key_Done [where fs=patch_files and out="''out.bin''" and ?x0.0="[]"
        and kf="''key''" and key="[7]" and config=short_signature_config and ko=12
        and lim=example_limit] cfg(7) example_limit_bounds
    by (simp add: patch_files_def two_images_def)
  have fits: "\<forall>k<length (images two_images).
             record_fits example_limit (112 + 44 * (0 + k)) (128 + 44 * (0 + k))
               (132 + 44 * (0 + k)) (136 + 44 * (0 + k)) (images two_images ! k)"
    by (simp add: two_images_def record_fits_def example_limit_bounds less_Suc_eq)
  have "fix_metadata_loop example_limit ''out.bin'' short_signature_config 0
          (images two_images) ?fs1
        = Done (?fs1(''out.bin'' \<mapsto>
            patch_records ''little'' 112 128 132 136 44 0 (images two_images)
              (write_at [] 12 [7])))"
    using fix_metadata_loop_patches [where config=short_signature_config and c=112 and l=128
        and s=132 and h=136 and S=44 and bo="''little''" and rs="images two_images"
        and fs="?fs1" and out="''out.bin''" and x="write_at [] 12 [7]" and i=0
        and lim=example_limit]
      cfg(1-6) example_limit_bounds(1) fits by simp
  with k show ?thesis by (simp only: fix_metadata_def then_do.simps fun_upd_upd)
qed

lemma short_signature_run:
  "read_result
     (fix_metadata example_limit ''out.bin'' two_images short_signature_config patch_files)
       ''out.bin'' 136 32
     = Some (replicate 20 0xAA @ [2, 0, 0, 0] @ replicate 8 0xAA)"
  unfolding short_signature_patches
  by (simp add: two_images_def patch_record_def byte_string_def write_at_def
        little_endian_def upt_rec read_at_def numeral_nat)

theorem roundtrip_overlap_counterexample:
  "build_config short_signature_platform = Inr short_signature_config
   \<and> hmac_signature (images two_images ! 0) = Some (replicate 32 0xAA)
   \<and> read_result
         (fix_metadata example_limit ''out.bin'' two_images short_signature_config patch_files)
         ''out.bin'' 136 32
       = Some (replicate 20 0xAA @ [2, 0, 0, 0] @ replicate 8 0xAA)
   \<and> read_result
         (fix_metadata example_limit ''out.bin'' two_images short_signature_config patch_files)
         ''out.bin'' 136 32
       \<noteq> hmac_signature (images two_images ! 0)"
proof -
  have sg: "hmac_signature (images two_images ! 0) = Some (replicate 32 0xAA)"
    by (simp add: two_images_def)
  have ne: "replicate 20 0xAA @ [2, 0, 0, 0] @ replicate 8 0xAA \<noteq> replicate 32 (0xAA :: byte)"
  proof
    assume "replicate 20 0xAA @ [2, 0, 0, 0] @ replicate 8 0xAA = replicate 32 (0xAA :: byte)"
    then have "(replicate 20 0xAA @ [2, 0, 0, 0] @ replicate 8 0xAA) ! 20
        = replicate 32 (0xAA :: byte) ! 20"
      by (rule arg_cong)
    then show False by (simp add: nth_append)
  qed
  with ne sg short_signature_layout short_signature_run show ?thesis by simp
qed

end
